theory Spec2Isabelle
  imports
    Complex_Main
    "HOL-Library.Sublist"
    "HOL-Library.List_Lexorder"
    "HOL-Library.Char_ord"
    "HOL-Library.Log_Nat"
begin

section \<open>Paths, names and Python string tests\<close>

text \<open>
  A \<^verbatim>\<open>pathlib.Path\<close> is modelled by its \<^verbatim>\<open>parts\<close>: the list of its name components
  (relative to a fixed root, which is not itself a part). Paths compare as Python compares
  them, component list by component list, each component character by character.
\<close>

type_synonym path = "string list"

text \<open>Python's \<^verbatim>\<open>sub in s\<close> on strings and \<^verbatim>\<open>s.endswith(suf)\<close>.\<close>

definition contains :: "string \<Rightarrow> string \<Rightarrow> bool" where
  "contains sub s = sublist sub s"

definition endswith :: "string \<Rightarrow> string \<Rightarrow> bool" where
  "endswith s suf = suffix suf s"

text \<open>\<^verbatim>\<open>str.rfind(c)\<close>: the highest index holding \<open>c\<close>, or \<open>-1\<close>.\<close>

definition rfind :: "char \<Rightarrow> string \<Rightarrow> int" where
  "rfind c s =
     (case find (\<lambda>i. s ! i = c) (rev [0..<length s]) of
        None \<Rightarrow> - 1
      | Some i \<Rightarrow> int i)"

text \<open>
  \<^verbatim>\<open>PurePath.name\<close> and \<^verbatim>\<open>PurePath.stem\<close>: the stem is the name minus its last suffix,
  where a dot in first or last position does not start a suffix.
\<close>

definition name_of :: "path \<Rightarrow> string" where
  "name_of p = (if p = [] then [] else last p)"

definition stem_of_name :: "string \<Rightarrow> string" where
  "stem_of_name name =
     (let i = rfind CHR ''.'' name
      in if 0 < i \<and> i < int (length name) - 1 then take (nat i) name else name)"

definition stem :: "path \<Rightarrow> string" where
  "stem p = stem_of_name (name_of p)"

definition parent :: "path \<Rightarrow> path" where
  "parent p = butlast p"

definition joinpath :: "path \<Rightarrow> string \<Rightarrow> path" where
  "joinpath p name = p @ [name]"

section \<open>Errors\<close>

datatype error =
    IndexError
  | FileNotFoundError
  | NotADirectoryError
  | IsADirectoryError
  | OSError
  | BadMetadata
  | AssertionError
  | ValueError
  | KeyError
  | AttributeError
  | ZeroDivisionError

section \<open>The metadata record\<close>

text \<open>
  The dictionary built by \<^verbatim>\<open>_init_metadata_dict\<close> and extended by the later writes. A key
  that is set only later is an \<open>option\<close>. File durations are Python floats; a float is
  modelled by the rational number it denotes.
\<close>

record file_seqs =
  audio_files :: "path list"
  file_lengths :: "rat list"
  nr_embeds_per_file :: "nat list"
  embedding_files :: "path list option"
  embedding_dimensions :: "nat list list option"

record metadata =
  md_model_name :: string
  md_audio_dir :: path
  md_embed_dir :: path
  md_files :: file_seqs
  md_segment_length :: "int option"
  md_sample_rate :: "int option"
  md_embedding_size :: "nat option"
  md_nr_embeds_total :: "nat option"
  md_total_dataset_length :: "rat option"

section \<open>The file system\<close>

text \<open>
  The file system is a listing of its entries: each path with what is there. A file holding
  a metadata document carries the parsed document; any other file is \<open>DataFile\<close>.
\<close>

datatype fobj = DirObj | YamlFile metadata | DataFile

type_synonym filesystem = "(path \<times> fobj) list"

definition is_dir :: "filesystem \<Rightarrow> path \<Rightarrow> bool" where
  "is_dir fs p = (map_of fs p = Some DirObj)"

definition children :: "filesystem \<Rightarrow> path \<Rightarrow> path list" where
  "children fs p = filter (\<lambda>q. q \<noteq> [] \<and> butlast q = p) (map fst fs)"

text \<open>\<^verbatim>\<open>Path.iterdir\<close>, forced by \<^verbatim>\<open>list(...)\<close>.\<close>

definition iterdir :: "filesystem \<Rightarrow> path \<Rightarrow> error + path list" where
  "iterdir fs p =
     (case map_of fs p of
        None \<Rightarrow> Inl FileNotFoundError
      | Some DirObj \<Rightarrow> Inr (children fs p)
      | Some _ \<Rightarrow> Inl NotADirectoryError)"

text \<open>
  \<^verbatim>\<open>d.glob("*" + suf)\<close> lists the entries directly in \<open>d\<close> whose name ends with \<open>suf\<close>;
  \<^verbatim>\<open>d.rglob("*" + suf)\<close> those at any depth below \<open>d\<close>. Both yield nothing when \<open>d\<close> is
  not a directory. The suffix is taken to hold no glob metacharacter.
\<close>

definition glob_suffix :: "filesystem \<Rightarrow> path \<Rightarrow> string \<Rightarrow> path list" where
  "glob_suffix fs d suf =
     (if is_dir fs d then filter (\<lambda>q. endswith (last q) suf) (children fs d) else [])"

definition rglob_suffix :: "filesystem \<Rightarrow> path \<Rightarrow> string \<Rightarrow> path list" where
  "rglob_suffix fs d suf =
     (if is_dir fs d
      then filter (\<lambda>q. strict_prefix d q \<and> endswith (last q) suf) (map fst fs)
      else [])"

text \<open>\<^verbatim>\<open>Path.rmdir\<close> removes an empty directory and raises an \<^verbatim>\<open>OSError\<close> otherwise.\<close>

definition rmdir :: "filesystem \<Rightarrow> path \<Rightarrow> error + filesystem" where
  "rmdir fs d =
     (if is_dir fs d \<and> children fs d = []
      then Inr (filter (\<lambda>e. fst e \<noteq> d) fs)
      else Inl OSError)"

text \<open>
  Opening \<^verbatim>\<open>folder/metadata.yml\<close> and parsing it. A file there that does not parse to a
  metadata dictionary is reported as \<open>BadMetadata\<close>.
\<close>

definition read_metadata :: "filesystem \<Rightarrow> path \<Rightarrow> error + metadata" where
  "read_metadata fs folder =
     (case map_of fs (joinpath folder ''metadata.yml'') of
        None \<Rightarrow> Inl FileNotFoundError
      | Some DirObj \<Rightarrow> Inl IsADirectoryError
      | Some DataFile \<Rightarrow> Inl BadMetadata
      | Some (YamlFile md) \<Rightarrow> Inr md)"

section \<open>The loader\<close>

text \<open>
  \<^verbatim>\<open>check_if_combination_exists\<close> is \<^verbatim>\<open>True\<close>, \<^verbatim>\<open>False\<close> or the name of a cache
  directory; \<^verbatim>\<open>dim_reduction_model\<close> is \<^verbatim>\<open>False\<close> (here \<open>None\<close>) or a name. Both are
  tested by Python truthiness, under which the empty string is false.
\<close>

datatype reuse_policy = Flag bool | Name string

fun policy_truthy :: "reuse_policy \<Rightarrow> bool" where
  "policy_truthy (Flag b) = b"
| "policy_truthy (Name n) = (n \<noteq> [])"

record loader =
  model_name :: string
  audio_dir :: path
  dim_reduction_model :: "string option"
  check_if_combination_exists :: reuse_policy
  embed_suffix :: string
  audio_suffixes :: "string list"
  embed_parent_dir :: path
  dim_reduc_parent_dir :: path
  combination_already_exists :: bool
  dim_reduc_embed_dir :: "path option"
  embed_dir :: "path option"
  metadata_dict :: "metadata option"
  files :: "path list"

definition dim_reduc_on :: "loader \<Rightarrow> bool" where
  "dim_reduc_on l = (case dim_reduction_model l of None \<Rightarrow> False | Some r \<Rightarrow> r \<noteq> [])"

text \<open>What the run prints.\<close>

datatype msg =
    NotEmptyMsg path
  | AlreadyExistMsg path
  | NoVerifyMsg error
  | AudioMovedMsg

record state =
  ld :: loader
  fsys :: filesystem
  out :: "msg list"

datatype flow = Continue | Break | Return path | Raise error

subsection \<open>\<^verbatim>\<open>_get_audio_files\<close>\<close>

text \<open>
  Every configured suffix is globbed below the corpus root; \<^verbatim>\<open>np.unique\<close> sorts the hits
  and drops duplicates; an empty result fails the assertion.
\<close>

definition get_audio_files :: "state \<Rightarrow> error + path list" where
  "get_audio_files s =
     (let files_list =
            concat (map (\<lambda>suf. rglob_suffix (fsys s) (audio_dir (ld s)) suf)
                        (audio_suffixes (ld s)));
          files_list = sort (remdups files_list)
      in if length files_list > 0 then Inr files_list else Inl AssertionError)"

subsection \<open>\<^verbatim>\<open>_get_metadata_dict\<close>\<close>

text \<open>
  The document is loaded into \<^verbatim>\<open>metadata_dict\<close>, and every string-valued key
  (\<^verbatim>\<open>model_name\<close>, \<^verbatim>\<open>audio_dir\<close>, \<^verbatim>\<open>embed_dir\<close>) is copied, as a path, to the attribute
  of the same name: a stored \<^verbatim>\<open>embed_dir\<close> that is no longer a directory is remapped
  beside \<open>folder\<close>, a stored \<^verbatim>\<open>audio_dir\<close> that is no longer one is reported. The
  attribute \<^verbatim>\<open>model_name\<close> keeps its text: in the source it becomes a path object from
  here on, on which a later substring test or string concatenation would raise
  \<^verbatim>\<open>TypeError\<close>. The scan ends right after every load, so that no such test follows
  within the functions modelled here.
\<close>

definition get_metadata_dict :: "path \<Rightarrow> state \<Rightarrow> error + state" where
  "get_metadata_dict folder s =
     (case read_metadata (fsys s) folder of
        Inl e \<Rightarrow> Inl e
      | Inr md \<Rightarrow>
          (let ed = (if is_dir (fsys s) (md_embed_dir md) then md_embed_dir md
                     else joinpath (parent folder) (stem (md_embed_dir md)));
               o' = (if is_dir (fsys s) (md_audio_dir md) then out s
                     else out s @ [AudioMovedMsg]);
               l = (ld s)\<lparr>metadata_dict := Some md,
                          audio_dir := md_audio_dir md,
                          embed_dir := Some ed,
                          model_name := md_model_name md\<rparr>;
               l = (if dim_reduc_on l then l\<lparr>dim_reduc_embed_dir := Some folder\<rparr> else l)
           in Inr (s\<lparr>ld := l, out := o'\<rparr>)))"

subsection \<open>\<^verbatim>\<open>_find_existing_embed_dir\<close>\<close>

text \<open>The branch for a candidate that has no entry matching \<^verbatim>\<open>*yml\<close>.\<close>

definition prune_stale :: "path \<Rightarrow> state \<Rightarrow> flow \<times> state" where
  "prune_stale d s =
     (case rmdir (fsys s) d of
        Inr fs' \<Rightarrow> (Continue, s\<lparr>fsys := fs'\<rparr>)
      | Inl _ \<Rightarrow> (Continue, s\<lparr>out := out s @ [NotEmptyMsg d]\<rparr>))"

text \<open>The branch of a reduction-stage request, after the metadata check.\<close>

definition find_reduc :: "path \<Rightarrow> state \<Rightarrow> flow \<times> state" where
  "find_reduc d s =
     (if contains (the (dim_reduction_model (ld s))) (stem d)
      then (Break, s\<lparr>ld := (ld s)\<lparr>combination_already_exists := True, embed_dir := Some d\<rparr>,
                      out := out s @ [AlreadyExistMsg d]\<rparr>)
      else (Return d, s))"

text \<open>
  The branch of a raw-embedding request, after the metadata check: the artifact count is
  compared with a fresh enumeration of the corpus, and a failed enumeration is caught.
\<close>

definition find_raw :: "path \<Rightarrow> state \<Rightarrow> flow \<times> state" where
  "find_raw d s =
     (let num_files = length (rglob_suffix (fsys s) d (embed_suffix (ld s)))
      in case get_audio_files s of
           Inl e \<Rightarrow>
             (if e = AssertionError then
                (case get_metadata_dict d s of
                   Inl e' \<Rightarrow> (Raise e', s)
                 | Inr s' \<Rightarrow>
                     (Break,
                      s'\<lparr>ld := (ld s')\<lparr>combination_already_exists := True\<rparr>,
                         out := out s' @
                           [NoVerifyMsg e,
                            AlreadyExistMsg (md_embed_dir (the (metadata_dict (ld s'))))]\<rparr>))
              else (Raise e, s))
         | Inr audio \<Rightarrow>
             (if length audio = num_files then
                (let s1 = s\<lparr>ld := (ld s)\<lparr>combination_already_exists := True\<rparr>\<rparr>
                 in case get_metadata_dict d s1 of
                      Inl e' \<Rightarrow> (Raise e', s1)
                    | Inr s' \<Rightarrow>
                        (Break,
                         s'\<lparr>out := out s' @
                           [AlreadyExistMsg (md_embed_dir (the (metadata_dict (ld s'))))]\<rparr>))
              else (Continue, s)))"

text \<open>The body of the loop, for one candidate \<open>d\<close>.\<close>

definition find_body :: "path \<Rightarrow> state \<Rightarrow> flow \<times> state" where
  "find_body d s =
     (if \<not> contains (model_name (ld s)) (stem d) then (Continue, s)
      else if d = [] then (Raise IndexError, s)
      else if \<not> contains (stem (audio_dir (ld s))) (last d) then (Continue, s)
      else if glob_suffix (fsys s) d ''yml'' = [] then prune_stale d s
      else
        (case read_metadata (fsys s) d of
           Inl e \<Rightarrow> (Raise e, s)
         | Inr mdata \<Rightarrow>
             (if \<not> model_name (ld s) = md_model_name mdata then (Continue, s)
              else if dim_reduc_on (ld s) then find_reduc d s
              else find_raw d s)))"

text \<open>
  The loop over the candidates in the order given; the function returns the directory of
  the \<^verbatim>\<open>return\<close> statement, or \<^verbatim>\<open>None\<close> after a \<^verbatim>\<open>break\<close> or at the end of the list.
\<close>

fun scan :: "path list \<Rightarrow> state \<Rightarrow> (error + path option) \<times> state" where
  "scan [] s = (Inr None, s)"
| "scan (d # ds) s =
     (case find_body d s of
        (Continue, s') \<Rightarrow> scan ds s'
      | (Break, s') \<Rightarrow> (Inr None, s')
      | (Return p, s') \<Rightarrow> (Inr (Some p), s')
      | (Raise e, s') \<Rightarrow> (Inl e, s'))"

definition find_existing_embed_dir ::
    "path list \<Rightarrow> state \<Rightarrow> (error + path option) \<times> state" where
  "find_existing_embed_dir existing_embed_dirs s = scan (rev existing_embed_dirs) s"

subsection \<open>\<^verbatim>\<open>check_embeds_already_exist\<close>\<close>

text \<open>
  An override name is taken to be a single path component. The method itself returns
  nothing: its result here is the exception that escapes it, if any.
\<close>

definition check_embeds_already_exist :: "state \<Rightarrow> error option \<times> state" where
  "check_embeds_already_exist s0 =
     (let s = s0\<lparr>ld := (ld s0)\<lparr>combination_already_exists := False,
                                dim_reduc_embed_dir := None\<rparr>\<rparr>
      in if policy_truthy (check_if_combination_exists (ld s)) then
           (case iterdir (fsys s)
                   (if dim_reduc_on (ld s) then dim_reduc_parent_dir (ld s)
                    else embed_parent_dir (ld s)) of
              Inl e \<Rightarrow> (Some e, s)
            | Inr existing_embed_dirs \<Rightarrow>
                (case (case check_if_combination_exists (ld s) of
                         Name n \<Rightarrow>
                           (case existing_embed_dirs of
                              [] \<Rightarrow> Inl IndexError
                            | d0 # _ \<Rightarrow> Inr [joinpath (parent d0) n])
                       | Flag _ \<Rightarrow> Inr existing_embed_dirs) of
                   Inl e \<Rightarrow> (Some e, s)
                 | Inr existing_embed_dirs \<Rightarrow>
                     (case find_existing_embed_dir (sort existing_embed_dirs) s of
                        (Inl e, s') \<Rightarrow> (Some e, s')
                      | (Inr _, s') \<Rightarrow> (None, s'))))
         else (None, s))"

subsection \<open>\<^verbatim>\<open>get_timestamp_dir\<close>\<close>

text \<open>
  \<^verbatim>\<open>time.strftime(format, time.localtime())\<close> copies the format and replaces every
  conversion specification, a \<^verbatim>\<open>%\<close> and the character after it, by a text that depends
  on the clock; \<^verbatim>\<open>%%\<close> gives one \<^verbatim>\<open>%\<close>. The reading of the clock is the parameter
  \<open>clock\<close>: the text the C library substitutes for each conversion character at the moment
  of the call. Conversion specifications of more than one character after the \<^verbatim>\<open>%\<close>
  (the flags and the \<^verbatim>\<open>E\<close> and \<^verbatim>\<open>O\<close> modifiers that some C libraries accept) are not
  modelled.
\<close>

fun strftime :: "(char \<Rightarrow> string) \<Rightarrow> string \<Rightarrow> string" where
  "strftime clock [] = []"
| "strftime clock [c] = [c]"
| "strftime clock (c # c' # cs) =
     (if c = CHR ''%''
      then (if c' = CHR ''%'' then ''%'' else clock c') @ strftime clock cs
      else c # strftime clock (c' # cs))"

definition get_timestamp_dir :: "(char \<Rightarrow> string) \<Rightarrow> loader \<Rightarrow> string" where
  "get_timestamp_dir clock l =
     (let model_name = (if dim_reduc_on l then the (dim_reduction_model l) else model_name l)
      in strftime clock (''%Y-%m-%d_%H-%M___'' @ model_name @ ''-'' @ stem (audio_dir l)))"

subsection \<open>\<^verbatim>\<open>_get_audio_paths\<close>\<close>

definition get_audio_paths :: "(char \<Rightarrow> string) \<Rightarrow> state \<Rightarrow> error option \<times> state" where
  "get_audio_paths clock s =
     (case get_audio_files s of
        Inl e \<Rightarrow> (Some e, s)
      | Inr fl \<Rightarrow>
          (None,
           s\<lparr>ld := (ld s)\<lparr>files := sort fl,
                           embed_dir := Some (joinpath (embed_parent_dir (ld s))
                                                (get_timestamp_dir clock (ld s)))\<rparr>\<rparr>))"

subsection \<open>The metadata writes\<close>

text \<open>\<^verbatim>\<open>_init_metadata_dict\<close> needs the attribute \<^verbatim>\<open>embed_dir\<close> to be set.\<close>

definition init_metadata_dict :: "loader \<Rightarrow> error + loader" where
  "init_metadata_dict l =
     (case embed_dir l of
        None \<Rightarrow> Inl AttributeError
      | Some ed \<Rightarrow>
          Inr (l\<lparr>metadata_dict := Some
                 \<lparr>md_model_name = model_name l,
                  md_audio_dir = audio_dir l,
                  md_embed_dir = ed,
                  md_files = \<lparr>audio_files = [], file_lengths = [], nr_embeds_per_file = [],
                              embedding_files = None, embedding_dimensions = None\<rparr>,
                  md_segment_length = None, md_sample_rate = None, md_embedding_size = None,
                  md_nr_embeds_total = None, md_total_dataset_length = None\<rparr>\<rparr>))"

text \<open>\<^verbatim>\<open>PurePath.relative_to\<close> raises \<^verbatim>\<open>ValueError\<close> when the base is not a prefix.\<close>

definition relative_to :: "path \<Rightarrow> path \<Rightarrow> error + path" where
  "relative_to p base =
     (if prefix base p then Inr (drop (length base) p) else Inl ValueError)"

text \<open>
  What \<^verbatim>\<open>write_audio_file_to_metadata\<close> reads from the embedder and from the array
  \<^verbatim>\<open>embeddings\<close>, an array of at least one dimension: the model's segment length and
  sampling rate, the duration of the file, and \<^verbatim>\<open>shape[0]\<close> and \<^verbatim>\<open>shape[-1]\<close>.
\<close>

record embedder =
  segment_length :: int
  sr :: int
  file_length :: rat

record array_shape =
  shape_first :: nat
  shape_last :: nat

definition write_audio_file_to_metadata ::
    "nat \<Rightarrow> path \<Rightarrow> embedder \<Rightarrow> array_shape \<Rightarrow> loader \<Rightarrow> error option \<times> loader" where
  "write_audio_file_to_metadata index file emb embeddings l =
     (case metadata_dict l of
        None \<Rightarrow> (Some AttributeError, l)
      | Some md \<Rightarrow>
          (let md = (if index = 0
                     then md\<lparr>md_segment_length := Some (segment_length emb),
                             md_sample_rate := Some (sr emb),
                             md_embedding_size := Some (shape_last embeddings)\<rparr>
                     else md)
           in case relative_to file (audio_dir l) of
                Inl e \<Rightarrow> (Some e, l\<lparr>metadata_dict := Some md\<rparr>)
              | Inr rel_file_path \<Rightarrow>
                  (let f = md_files md;
                       f = f\<lparr>audio_files := audio_files f @ [rel_file_path]\<rparr>;
                       f = f\<lparr>file_lengths := file_lengths f @ [file_length emb]\<rparr>;
                       f = f\<lparr>nr_embeds_per_file :=
                               nr_embeds_per_file f @ [shape_first embeddings]\<rparr>
                   in (None, l\<lparr>metadata_dict := Some (md\<lparr>md_files := f\<rparr>)\<rparr>))))"

text \<open>
  Opening a file for writing creates or replaces it; the directory it lies in must exist.
\<close>

definition write_file :: "filesystem \<Rightarrow> path \<Rightarrow> fobj \<Rightarrow> error + filesystem" where
  "write_file fs p c =
     (if \<not> is_dir fs (parent p) then Inl FileNotFoundError
      else case map_of fs p of
             None \<Rightarrow> Inr (fs @ [(p, c)])
           | Some DirObj \<Rightarrow> Inl IsADirectoryError
           | Some _ \<Rightarrow> Inr (map (\<lambda>e. if fst e = p then (p, c) else e) fs))"

text \<open>
  \<^verbatim>\<open>write_metadata_file\<close>. The frame counts are Python integers and their \<^verbatim>\<open>sum\<close> is
  exact. The durations are floats: how the built-in \<^verbatim>\<open>sum\<close> rounds them is the
  parameter \<open>fsum\<close>.
\<close>

definition write_metadata_file :: "(rat list \<Rightarrow> rat) \<Rightarrow> state \<Rightarrow> error option \<times> state" where
  "write_metadata_file fsum s =
     (case metadata_dict (ld s) of
        None \<Rightarrow> (Some AttributeError, s)
      | Some md \<Rightarrow>
          (let md = md\<lparr>md_nr_embeds_total :=
                         Some (sum_list (nr_embeds_per_file (md_files md)))\<rparr>;
               md = md\<lparr>md_total_dataset_length :=
                         Some (fsum (file_lengths (md_files md)))\<rparr>;
               s = s\<lparr>ld := (ld s)\<lparr>metadata_dict := Some md\<rparr>\<rparr>
           in case embed_dir (ld s) of
                None \<Rightarrow> (Some AttributeError, s)
              | Some ed \<Rightarrow>
                  (case write_file (fsys s) (joinpath ed ''metadata.yml'') (YamlFile md) of
                     Inl e \<Rightarrow> (Some e, s)
                   | Inr fs' \<Rightarrow> (None, s\<lparr>fsys := fs'\<rparr>))))"

text \<open>
  Modelled from the spec: the orchestrator's loop over the audio files, which is not part
  of this source file. It calls \<^verbatim>\<open>write_audio_file_to_metadata\<close> once per file, the index
  counting up, and an exception ends it.
\<close>

fun append_files ::
    "nat \<Rightarrow> (path \<times> embedder \<times> array_shape) list \<Rightarrow> loader \<Rightarrow> error option \<times> loader" where
  "append_files i [] l = (None, l)"
| "append_files i ((file, emb, embeddings) # rest) l =
     (case write_audio_file_to_metadata i file emb embeddings l of
        (None, l') \<Rightarrow> append_files (Suc i) rest l'
      | (Some e, l') \<Rightarrow> (Some e, l'))"

section \<open>The reduction-stage artifact\<close>

subsection \<open>Floating-point numbers\<close>

text \<open>
  A finite binary64 number is the rational it denotes. An arithmetic operation on floats
  is the exact operation followed by a rounding \<open>rnd\<close>; \<open>fl64\<close> is the rounding of IEEE 754
  binary64 arithmetic, to nearest with ties to even (overflow and subnormal numbers are
  not modelled).
\<close>

definition pow2 :: "int \<Rightarrow> rat" where
  "pow2 e = (if 0 \<le> e then 2 ^ nat e else 1 / 2 ^ nat (- e))"

definition round_half_even :: "rat \<Rightarrow> int" where
  "round_half_even y =
     (let m = \<lfloor>y\<rfloor>; r = y - of_int m
      in if r < 1 / 2 then m
         else if 1 / 2 < r then m + 1
         else if even m then m else m + 1)"

text \<open>\<open>ilog2 x\<close> is the integer part of the binary logarithm of a positive \<open>x\<close>.\<close>

definition ilog2 :: "rat \<Rightarrow> int" where
  "ilog2 x =
     (let (p, q) = quotient_of x;
          e = bitlen p - bitlen q
      in if pow2 e \<le> x then e else e - 1)"

definition fl64 :: "rat \<Rightarrow> rat" where
  "fl64 x =
     (if x = 0 then 0
      else (let a = \<bar>x\<bar>;
                e = ilog2 a - 52;
                m = round_half_even (a / pow2 e)
            in sgn x * of_int m * pow2 e))"

text \<open>Python's \<^verbatim>\<open>a / b\<close> on two integers.\<close>

definition py_truediv :: "(rat \<Rightarrow> rat) \<Rightarrow> int \<Rightarrow> int \<Rightarrow> error + rat" where
  "py_truediv rnd a b =
     (if b = 0 then Inl ZeroDivisionError else Inr (rnd (of_int a / of_int b)))"

text \<open>
  \<^verbatim>\<open>np.arange(0, stop, step)\<close> on floats: the length is the ceiling of the float quotient
  \<^verbatim>\<open>(stop - 0) / step\<close>; the first two elements are \<open>0\<close> and \<open>0 + step\<close>, their
  difference is the increment \<open>delta\<close>, and element \<open>i\<close> is \<open>0 + i * delta\<close>.
\<close>

definition np_arange :: "(rat \<Rightarrow> rat) \<Rightarrow> rat \<Rightarrow> rat \<Rightarrow> error + rat list" where
  "np_arange rnd stop step =
     (if step = 0 then Inl ZeroDivisionError
      else (let len = nat \<lceil>rnd (rnd (stop - 0) / step)\<rceil>;
                next = rnd (0 + step);
                delta = rnd (next - 0)
            in Inr (map (\<lambda>i. if i = 0 then 0
                              else if i = 1 then next
                              else rnd (0 + rnd (of_nat i * delta)))
                        [0..<len])))"

subsection \<open>\<^verbatim>\<open>save_embeddings_dict_with_timestamps\<close>\<close>

text \<open>
  The loop that builds \<^verbatim>\<open>t_stamps\<close>: every entry of \<^verbatim>\<open>embedding_dimensions\<close> is unpacked
  into two values, which fails on a shape that is not two-dimensional.
\<close>

fun t_stamps :: "(rat \<Rightarrow> rat) \<Rightarrow> rat \<Rightarrow> nat list list \<Rightarrow> rat list \<Rightarrow> error + rat list" where
  "t_stamps rnd input_len [] acc = Inr acc"
| "t_stamps rnd input_len (shape # rest) acc =
     (case shape of
        [num_segments, _] \<Rightarrow>
          (case np_arange rnd (rnd (of_nat num_segments * input_len)) input_len of
             Inl e \<Rightarrow> Inl e
           | Inr ts \<Rightarrow> t_stamps rnd input_len rest (acc @ ts))
      | _ \<Rightarrow> Inl ValueError)"

text \<open>
  The reduced array \<^verbatim>\<open>embeds\<close> is given by its rows and its number of columns. The JSON
  document holds the first column as \<^verbatim>\<open>x\<close>, the second as \<^verbatim>\<open>y\<close>, the time stamps and the
  metadata. The companion binary artifact of a reduction to more than two dimensions is
  not modelled.
\<close>

record array2 =
  ncols :: nat
  rows :: "rat list list"

record json_doc =
  json_x :: "rat list option"
  json_y :: "rat list option"
  json_timestamp :: "rat list"
  json_metadata :: metadata

definition save_embeddings_dict_with_timestamps ::
    "(rat \<Rightarrow> rat) \<Rightarrow> array2 \<Rightarrow> rat \<Rightarrow> loader \<Rightarrow> error + json_doc" where
  "save_embeddings_dict_with_timestamps rnd embeds input_len loader_obj =
     (case metadata_dict loader_obj of
        None \<Rightarrow> Inl AttributeError
      | Some md \<Rightarrow>
          (case embedding_dimensions (md_files md) of
             None \<Rightarrow> Inl KeyError
           | Some dims \<Rightarrow>
               (case t_stamps rnd input_len dims [] of
                  Inl e \<Rightarrow> Inl e
                | Inr ts \<Rightarrow>
                    Inr \<lparr>json_x = (if 0 < ncols embeds
                               then Some (map (\<lambda>r. r ! 0) (rows embeds)) else None),
                         json_y = (if 1 < ncols embeds
                               then Some (map (\<lambda>r. r ! 1) (rows embeds)) else None),
                         json_timestamp = ts,
                         json_metadata = md\<rparr>)))"

text \<open>The reduction branch of \<^verbatim>\<open>Embedder.save_embeddings\<close>.\<close>

definition save_embeddings :: "(rat \<Rightarrow> rat) \<Rightarrow> loader \<Rightarrow> array2 \<Rightarrow> error + json_doc" where
  "save_embeddings rnd fileloader_obj embeds =
     (case metadata_dict fileloader_obj of
        None \<Rightarrow> Inl AttributeError
      | Some md \<Rightarrow>
          (case (md_segment_length md, md_sample_rate md) of
             (Some seg, Some rate) \<Rightarrow>
               (case py_truediv rnd seg rate of
                  Inl e \<Rightarrow> Inl e
                | Inr input_len \<Rightarrow>
                    save_embeddings_dict_with_timestamps rnd embeds input_len fileloader_obj)
           | _ \<Rightarrow> Inl KeyError))"

section \<open>Auxiliary notions for the proofs\<close>

text \<open>
  Two states have the same view of a candidate \<open>d\<close> when the loader is the same and
  everything the loop body reads for \<open>d\<close> from the file system is the same.
\<close>

definition same_view :: "path \<Rightarrow> state \<Rightarrow> state \<Rightarrow> bool" where
  "same_view d s0 s =
     (ld s = ld s0
      \<and> glob_suffix (fsys s) d ''yml'' = glob_suffix (fsys s0) d ''yml''
      \<and> read_metadata (fsys s) d = read_metadata (fsys s0) d
      \<and> rglob_suffix (fsys s) d (embed_suffix (ld s0))
          = rglob_suffix (fsys s0) d (embed_suffix (ld s0))
      \<and> get_audio_files s = get_audio_files s0)"

section \<open>A concrete corpus and cache\<close>

text \<open>
  The corpus \<^verbatim>\<open>data/corpus\<close> holds two audio files. The cache root \<^verbatim>\<open>res/emb\<close> holds two
  complete caches of model \<^verbatim>\<open>X\<close> for it, a cache of model \<^verbatim>\<open>X2\<close>, a complete cache that
  was renamed, two directories without metadata (one empty, one not), and an empty
  directory of model \<^verbatim>\<open>Y\<close>. The cache root \<^verbatim>\<open>res/fresh\<close> is empty.
\<close>

definition ex_md :: "string \<Rightarrow> path \<Rightarrow> metadata" where
  "ex_md m dir =
     \<lparr>md_model_name = m, md_audio_dir = [''data'', ''corpus''], md_embed_dir = dir,
      md_files = \<lparr>audio_files = [[''a.wav''], [''sub'', ''b.wav'']], file_lengths = [30, 20],
                  nr_embeds_per_file = [3, 2], embedding_files = None,
                  embedding_dimensions = None\<rparr>,
      md_segment_length = Some 16000, md_sample_rate = Some 16000,
      md_embedding_size = Some 4, md_nr_embeds_total = Some 5,
      md_total_dataset_length = Some 50\<rparr>"

definition ex_parent :: path where
  "ex_parent = [''res'', ''emb'']"

definition ex_cache :: "string \<Rightarrow> string \<Rightarrow> (path \<times> fobj) list" where
  "ex_cache name m =
     [(ex_parent @ [name], DirObj),
      (ex_parent @ [name, ''metadata.yml''], YamlFile (ex_md m (ex_parent @ [name]))),
      (ex_parent @ [name, ''a_X.npy''], DataFile),
      (ex_parent @ [name, ''sub''], DirObj),
      (ex_parent @ [name, ''sub'', ''b_X.npy''], DataFile)]"

definition ex_fs :: filesystem where
  "ex_fs =
     [([''data'', ''corpus''], DirObj),
      ([''data'', ''corpus'', ''a.wav''], DataFile),
      ([''data'', ''corpus'', ''sub''], DirObj),
      ([''data'', ''corpus'', ''sub'', ''b.wav''], DataFile),
      ([''res'', ''fresh''], DirObj),
      (ex_parent, DirObj)]
     @ ex_cache ''2024-01-01_10-00___X-corpus'' ''X''
     @ ex_cache ''2023-12-31_23-59___X-corpus'' ''X''
     @ ex_cache ''2024-01-03_08-30___X2-corpus'' ''X2''
     @ ex_cache ''renamed_run'' ''X''
     @ [(ex_parent @ [''2024-01-04_07-00___X-corpus''], DirObj),
        (ex_parent @ [''2024-01-05_06-00___X-corpus''], DirObj),
        (ex_parent @ [''2024-01-05_06-00___X-corpus'', ''a_X.npy''], DataFile),
        (ex_parent @ [''2024-01-06_05-00___Y-corpus''], DirObj)]"

definition ex_ld :: loader where
  "ex_ld =
     \<lparr>model_name = ''X'', audio_dir = [''data'', ''corpus''], dim_reduction_model = None,
      check_if_combination_exists = Flag True, embed_suffix = ''.npy'',
      audio_suffixes = [''.wav'', ''.WAV''], embed_parent_dir = ex_parent,
      dim_reduc_parent_dir = [''res'', ''dim''], combination_already_exists = False,
      dim_reduc_embed_dir = None, embed_dir = None, metadata_dict = None, files = []\<rparr>"

definition ex_state :: state where
  "ex_state = \<lparr>ld = ex_ld, fsys = ex_fs, out = []\<rparr>"

text \<open>The same request when only \<^verbatim>\<open>.flac\<close> files count as audio: the corpus has none.\<close>

definition ex_state_flac :: state where
  "ex_state_flac = ex_state\<lparr>ld := ex_ld\<lparr>audio_suffixes := [''.flac'']\<rparr>\<rparr>"

text \<open>A request that names its cache directory, against the empty cache root.\<close>

definition ex_state_override :: state where
  "ex_state_override =
     ex_state\<lparr>ld := ex_ld\<lparr>check_if_combination_exists := Name ''renamed_run'',
                              embed_parent_dir := [''res'', ''fresh'']\<rparr>\<rparr>"

text \<open>The candidates of the example, by what they illustrate.\<close>

definition ex_newest_X :: path where
  "ex_newest_X = ex_parent @ [''2024-01-01_10-00___X-corpus'']"

definition ex_older_X :: path where
  "ex_older_X = ex_parent @ [''2023-12-31_23-59___X-corpus'']"

definition ex_other_model :: path where
  "ex_other_model = ex_parent @ [''2024-01-03_08-30___X2-corpus'']"

definition ex_renamed :: path where
  "ex_renamed = ex_parent @ [''renamed_run'']"

definition ex_stale_empty :: path where
  "ex_stale_empty = ex_parent @ [''2024-01-04_07-00___X-corpus'']"

definition ex_empty_Y :: path where
  "ex_empty_Y = ex_parent @ [''2024-01-06_05-00___Y-corpus'']"

text \<open>A fresh run that writes into an existing empty directory, and its two files.\<close>

definition ex_fresh_ld :: loader where
  "ex_fresh_ld = ex_ld\<lparr>embed_dir := Some ex_stale_empty\<rparr>"

definition ex_recs :: "(path \<times> embedder \<times> array_shape) list" where
  "ex_recs =
     [([''data'', ''corpus'', ''a.wav''],
       \<lparr>segment_length = 16000, sr = 16000, file_length = 30\<rparr>,
       \<lparr>shape_first = 3, shape_last = 4\<rparr>),
      ([''data'', ''corpus'', ''sub'', ''b.wav''],
       \<lparr>segment_length = 16000, sr = 16000, file_length = 20\<rparr>,
       \<lparr>shape_first = 2, shape_last = 4\<rparr>)]"

text \<open>The clock at 2024-03-05 10:30, and a corpus directory whose name holds a \<^verbatim>\<open>%\<close>.\<close>

definition ex_clock :: "char \<Rightarrow> string" where
  "ex_clock c =
     (if c = CHR ''Y'' then ''2024'' else if c = CHR ''m'' then ''03''
      else if c = CHR ''d'' then ''05'' else if c = CHR ''H'' then ''10''
      else if c = CHR ''M'' then ''30'' else [])"

definition ex_ld_percent :: loader where
  "ex_ld_percent = ex_ld\<lparr>audio_dir := [''data'', ''audio_%d'']\<rparr>"

text \<open>
  A reduction-stage loader over one raw artifact of nine frames, from a model with
  segments of 15360 samples at 16 kHz, and the reduced array of nine rows.
\<close>

definition ex_reduc_ld :: loader where
  "ex_reduc_ld =
     ex_ld\<lparr>dim_reduction_model := Some ''umap'',
            metadata_dict := Some
              ((ex_md ''X'' ex_newest_X)
                 \<lparr>md_files := \<lparr>audio_files = [[''a.wav'']], file_lengths = [9],
                                nr_embeds_per_file = [9],
                                embedding_files = Some [[''a_X.npy'']],
                                embedding_dimensions = Some [[9, 128]]\<rparr>,
                  md_segment_length := Some 15360,
                  md_sample_rate := Some 16000\<rparr>)\<rparr>"

definition ex_embeds :: array2 where
  "ex_embeds = \<lparr>ncols = 2, rows = replicate 9 [0, 0]\<rparr>"

text \<open>
  A reduction-stage request for the reducer \<^verbatim>\<open>umap\<close> over model \<^verbatim>\<open>X\<close>. Its cache root
  \<^verbatim>\<open>res/dim\<close> holds two \<^verbatim>\<open>umap\<close> caches of model \<^verbatim>\<open>X\<close>, a newer \<^verbatim>\<open>umap\<close> cache of
  model \<^verbatim>\<open>X2\<close> and an old cache of the reducer \<^verbatim>\<open>pca\<close>. In the second file system a
  \<^verbatim>\<open>pca\<close> cache of model \<^verbatim>\<open>X\<close> has been added that is newer than the two \<^verbatim>\<open>umap\<close> caches.
\<close>

definition ex_dim_parent :: path where
  "ex_dim_parent = [''res'', ''dim'']"

definition ex_reduc_cache :: "string \<Rightarrow> string \<Rightarrow> string \<Rightarrow> (path \<times> fobj) list" where
  "ex_reduc_cache name reducer m =
     [(ex_dim_parent @ [name], DirObj),
      (ex_dim_parent @ [name, ''metadata.yml''], YamlFile (ex_md m (ex_dim_parent @ [name]))),
      (ex_dim_parent @ [name, ''corpus_'' @ reducer @ ''.json''], DataFile)]"

definition ex_fs_reduc :: filesystem where
  "ex_fs_reduc =
     [([''data'', ''corpus''], DirObj),
      ([''data'', ''corpus'', ''a.wav''], DataFile),
      ([''data'', ''corpus'', ''sub''], DirObj),
      ([''data'', ''corpus'', ''sub'', ''b.wav''], DataFile),
      (ex_dim_parent, DirObj)]
     @ ex_reduc_cache ''2023-12-30_10-00___pca-corpus-X'' ''pca'' ''X''
     @ ex_reduc_cache ''2024-01-01_10-00___umap-corpus-X'' ''umap'' ''X''
     @ ex_reduc_cache ''2024-01-02_10-00___umap-corpus-X'' ''umap'' ''X''
     @ ex_reduc_cache ''2024-01-05_10-00___umap-corpus-X2'' ''umap'' ''X2''"

definition ex_fs_reduc_hidden :: filesystem where
  "ex_fs_reduc_hidden =
     ex_fs_reduc @ ex_reduc_cache ''2024-01-03_10-00___pca-corpus-X'' ''pca'' ''X''"

definition ex_ld_reduc :: loader where
  "ex_ld_reduc = ex_ld\<lparr>dim_reduction_model := Some ''umap'', embed_suffix := ''.json''\<rparr>"

definition ex_state_reduc :: state where
  "ex_state_reduc = \<lparr>ld = ex_ld_reduc, fsys = ex_fs_reduc, out = []\<rparr>"

definition ex_state_reduc_hidden :: state where
  "ex_state_reduc_hidden = \<lparr>ld = ex_ld_reduc, fsys = ex_fs_reduc_hidden, out = []\<rparr>"

definition ex_umap_older :: path where
  "ex_umap_older = ex_dim_parent @ [''2024-01-01_10-00___umap-corpus-X'']"

definition ex_umap_newest :: path where
  "ex_umap_newest = ex_dim_parent @ [''2024-01-02_10-00___umap-corpus-X'']"

definition ex_pca_newer :: path where
  "ex_pca_newer = ex_dim_parent @ [''2024-01-03_10-00___pca-corpus-X'']"

section \<open>Properties of the cache resolver\<close>

subsection \<open>What one step of the scan does\<close>

lemma endswith_metadata_yml: "endswith ''metadata.yml'' ''yml''"
  by (simp add: endswith_def suffix_to_prefix)

lemma read_metadata_entry:
  assumes "read_metadata fs d = Inr md"
  shows "map_of fs (d @ [''metadata.yml'']) = Some (YamlFile md)"
  using assms
  by (auto simp: read_metadata_def joinpath_def split: option.splits fobj.splits)

lemma glob_has_metadata:
  assumes "is_dir fs d" and "read_metadata fs d = Inr md"
  shows "glob_suffix fs d ''yml'' \<noteq> []"
proof -
  have "map_of fs (d @ [''metadata.yml'']) = Some (YamlFile md)"
    using assms(2) by (rule read_metadata_entry)
  then have "(d @ [''metadata.yml''], YamlFile md) \<in> set fs"
    by (rule map_of_SomeD)
  then have "d @ [''metadata.yml''] \<in> set (map fst fs)"
    by force
  then have "d @ [''metadata.yml''] \<in> set (children fs d)"
    by (simp add: children_def)
  then have "d @ [''metadata.yml''] \<in> set (glob_suffix fs d ''yml'')"
    using assms(1) endswith_metadata_yml by (simp add: glob_suffix_def)
  then show ?thesis by auto
qed

lemma find_body_matching:
  assumes "contains (model_name (ld s)) (stem d)" and "d \<noteq> []"
    and "contains (stem (audio_dir (ld s))) (last d)"
    and "is_dir (fsys s) d"
    and "read_metadata (fsys s) d = Inr mdata"
    and "md_model_name mdata = model_name (ld s)"
  shows "find_body d s = (if dim_reduc_on (ld s) then find_reduc d s else find_raw d s)"
proof -
  have "glob_suffix (fsys s) d ''yml'' \<noteq> []"
    using assms(4,5) by (rule glob_has_metadata)
  then show ?thesis
    using assms by (simp add: find_body_def)
qed

lemma get_metadata_dict_ok:
  assumes "read_metadata (fsys s) d = Inr mdata"
  shows "\<exists>s'. get_metadata_dict d s = Inr s' \<and> metadata_dict (ld s') = Some mdata
           \<and> fsys s' = fsys s
           \<and> combination_already_exists (ld s') = combination_already_exists (ld s)
           \<and> (\<exists>w. out s' = out s @ w)"
  using assms by (simp add: get_metadata_dict_def Let_def)

lemma sort_eq_Nil: "sort xs = [] \<longleftrightarrow> xs = []"
  by (metis length_sort length_0_conv)

lemma get_audio_files_fail:
  assumes "\<forall>suf \<in> set (audio_suffixes (ld s)). rglob_suffix (fsys s) (audio_dir (ld s)) suf = []"
  shows "get_audio_files s = Inl AssertionError"
proof -
  show ?thesis
    using assms by (simp add: get_audio_files_def Let_def sort_eq_Nil)
qed

lemma prune_stale_cases:
  "prune_stale d s =
     (if is_dir (fsys s) d \<and> children (fsys s) d = []
      then (Continue, s\<lparr>fsys := filter (\<lambda>e. fst e \<noteq> d) (fsys s)\<rparr>)
      else (Continue, s\<lparr>out := out s @ [NotEmptyMsg d]\<rparr>))"
  by (simp add: prune_stale_def rmdir_def)

lemma find_body_no_yml:
  assumes "glob_suffix (fsys s) d ''yml'' = []"
  shows "find_body d s = (Continue, s) \<or> find_body d s = (Raise IndexError, s)
       \<or> find_body d s = prune_stale d s"
  using assms by (simp add: find_body_def)

text \<open>
  Claim C3. A candidate directory whose metadata file records a model name different
  from the request's is skipped: the loop body leaves the state as it is and the scan goes
  on with the remaining candidates. This holds whatever the directory is called, so in
  particular when its name contains both the model identifier and the corpus identifier:
  the match of the name alone never yields reuse.
\<close>

theorem model_mismatch_is_skipped:
  assumes "d \<noteq> []" and "is_dir (fsys s) d"
    and "read_metadata (fsys s) d = Inr mdata"
    and "md_model_name mdata \<noteq> model_name (ld s)"
  shows "find_body d s = (Continue, s) \<and> scan (d # ds) s = scan ds s"
proof -
  have g: "glob_suffix (fsys s) d ''yml'' \<noteq> []"
    using assms(2,3) by (rule glob_has_metadata)
  have "find_body d s = (Continue, s)"
    using g assms(1,3,4) by (auto simp: find_body_def)
  then show ?thesis by simp
qed

text \<open>
  The cache of model \<^verbatim>\<open>X2\<close> has a name that contains \<^verbatim>\<open>X\<close> and \<^verbatim>\<open>corpus\<close>; a request for
  model \<^verbatim>\<open>X\<close> skips it.
\<close>

theorem model_mismatch_is_skipped_witness:
  "contains (model_name (ld ex_state)) (stem ex_other_model)
   \<and> contains (stem (audio_dir (ld ex_state))) (last ex_other_model)
   \<and> read_metadata (fsys ex_state) ex_other_model = Inr (ex_md ''X2'' ex_other_model)
   \<and> find_body ex_other_model ex_state = (Continue, ex_state)"
proof -
  have h1: "ex_other_model \<noteq> []" by code_simp
  have h2: "is_dir (fsys ex_state) ex_other_model" by code_simp
  have h3: "read_metadata (fsys ex_state) ex_other_model = Inr (ex_md ''X2'' ex_other_model)"
    by code_simp
  have h4: "md_model_name (ex_md ''X2'' ex_other_model) \<noteq> model_name (ld ex_state)"
    by code_simp
  have n1: "contains (model_name (ld ex_state)) (stem ex_other_model)" by code_simp
  have n2: "contains (stem (audio_dir (ld ex_state))) (last ex_other_model)" by code_simp
  from model_mismatch_is_skipped [OF h1 h2 h3 h4] n1 n2 h3 show ?thesis
    by simp
qed

text \<open>
  Claim C5. For a raw-embedding request and a matching candidate (its name contains both
  identifiers, its metadata records the request's model), when no file below the corpus
  root matches a configured suffix, so that the enumeration fails its assertion, the
  candidate is taken as reusable all the same: its metadata record is loaded, the warning
  is printed, the scan stops, and no exception leaves the resolver.
\<close>

theorem enumeration_failure_reuses_candidate:
  assumes raw: "\<not> dim_reduc_on (ld s)"
    and name: "contains (model_name (ld s)) (stem d)" "d \<noteq> []"
      "contains (stem (audio_dir (ld s))) (last d)"
    and dir: "is_dir (fsys s) d"
    and meta: "read_metadata (fsys s) d = Inr mdata" "md_model_name mdata = model_name (ld s)"
    and empty: "\<forall>suf \<in> set (audio_suffixes (ld s)).
                  rglob_suffix (fsys s) (audio_dir (ld s)) suf = []"
  shows "fst (find_body d s) = Break
       \<and> combination_already_exists (ld (snd (find_body d s)))
       \<and> metadata_dict (ld (snd (find_body d s))) = Some mdata
       \<and> NoVerifyMsg AssertionError \<in> set (out (snd (find_body d s)))
       \<and> fsys (snd (find_body d s)) = fsys s
       \<and> scan (d # ds) s = (Inr None, snd (find_body d s))"
proof -
  have fb: "find_body d s = find_raw d s"
    using find_body_matching [OF name dir meta] raw by simp
  have ga: "get_audio_files s = Inl AssertionError"
    using empty by (rule get_audio_files_fail)
  obtain s' where s': "get_metadata_dict d s = Inr s'" "metadata_dict (ld s') = Some mdata"
      "fsys s' = fsys s"
    using get_metadata_dict_ok [OF meta(1)] by blast
  have "find_raw d s =
          (Break,
           s'\<lparr>ld := (ld s')\<lparr>combination_already_exists := True\<rparr>,
              out := out s' @ [NoVerifyMsg AssertionError, AlreadyExistMsg (md_embed_dir mdata)]\<rparr>)"
    using ga s' by (simp add: find_raw_def)
  with fb s' show ?thesis by simp
qed

theorem enumeration_failure_reuses_candidate_witness:
  "get_audio_files ex_state_flac = Inl AssertionError
   \<and> fst (find_body ex_newest_X ex_state_flac) = Break
   \<and> combination_already_exists (ld (snd (find_body ex_newest_X ex_state_flac)))
   \<and> metadata_dict (ld (snd (find_body ex_newest_X ex_state_flac)))
       = Some (ex_md ''X'' ex_newest_X)
   \<and> NoVerifyMsg AssertionError \<in> set (out (snd (find_body ex_newest_X ex_state_flac)))"
proof -
  have raw: "\<not> dim_reduc_on (ld ex_state_flac)" by code_simp
  have n1: "contains (model_name (ld ex_state_flac)) (stem ex_newest_X)" by code_simp
  have n2: "ex_newest_X \<noteq> []" by code_simp
  have n3: "contains (stem (audio_dir (ld ex_state_flac))) (last ex_newest_X)" by code_simp
  have dir: "is_dir (fsys ex_state_flac) ex_newest_X" by code_simp
  have m1: "read_metadata (fsys ex_state_flac) ex_newest_X = Inr (ex_md ''X'' ex_newest_X)"
    by code_simp
  have m2: "md_model_name (ex_md ''X'' ex_newest_X) = model_name (ld ex_state_flac)"
    by code_simp
  have empty: "\<forall>suf \<in> set (audio_suffixes (ld ex_state_flac)).
                  rglob_suffix (fsys ex_state_flac) (audio_dir (ld ex_state_flac)) suf = []"
    by code_simp
  have ga: "get_audio_files ex_state_flac = Inl AssertionError" by code_simp
  from enumeration_failure_reuses_candidate [OF raw n1 n2 n3 dir m1 m2 empty] ga
  show ?thesis by simp
qed

text \<open>
  Claim C1, as amended. For a raw-embedding request and a candidate directory whose name
  contains the model identifier (in its stem) and the corpus identifier, whose metadata
  file exists and records the request's model, and provided the enumeration of the corpus
  succeeds, the candidate is marked reusable if and only if the number of \<^verbatim>\<open>.npy\<close> files
  below it equals the number of audio files enumerated; when the numbers differ the state
  is left as it is and the scan goes on with the older candidates.
\<close>

theorem artifact_count_decides_reuse:
  assumes raw: "\<not> dim_reduc_on (ld s)" and suffix: "embed_suffix (ld s) = ''.npy''"
    and name: "contains (model_name (ld s)) (stem d)" "d \<noteq> []"
      "contains (stem (audio_dir (ld s))) (last d)"
    and dir: "is_dir (fsys s) d"
    and meta: "read_metadata (fsys s) d = Inr mdata" "md_model_name mdata = model_name (ld s)"
    and enum: "get_audio_files s = Inr fl"
  shows "((fst (find_body d s) = Break
            \<and> combination_already_exists (ld (snd (find_body d s)))
            \<and> metadata_dict (ld (snd (find_body d s))) = Some mdata
            \<and> scan (d # ds) s = (Inr None, snd (find_body d s)))
          \<longleftrightarrow> length (rglob_suffix (fsys s) d ''.npy'') = length fl)
       \<and> (length (rglob_suffix (fsys s) d ''.npy'') \<noteq> length fl
            \<longrightarrow> find_body d s = (Continue, s) \<and> scan (d # ds) s = scan ds s)"
proof -
  have fb: "find_body d s = find_raw d s"
    using find_body_matching [OF name dir meta] raw by simp
  let ?s1 = "s\<lparr>ld := (ld s)\<lparr>combination_already_exists := True\<rparr>\<rparr>"
  have "read_metadata (fsys ?s1) d = Inr mdata"
    using meta(1) by simp
  from get_metadata_dict_ok [OF this]
  obtain s' where s': "get_metadata_dict d ?s1 = Inr s'" "metadata_dict (ld s') = Some mdata"
      "combination_already_exists (ld s')"
    by auto
  show ?thesis
  proof (cases "length (rglob_suffix (fsys s) d ''.npy'') = length fl")
    case True
    then have "find_raw d s = (Break, s'\<lparr>out := out s' @ [AlreadyExistMsg (md_embed_dir mdata)]\<rparr>)"
      using enum suffix s' by (simp add: find_raw_def)
    with fb True s' show ?thesis by simp
  next
    case False
    then have "find_raw d s = (Continue, s)"
      using enum suffix by (auto simp: find_raw_def)
    with fb False show ?thesis by simp
  qed
qed

theorem artifact_count_decides_reuse_witness:
  "get_audio_files ex_state = Inr [[''data'', ''corpus'', ''a.wav''],
                                    [''data'', ''corpus'', ''sub'', ''b.wav'']]
   \<and> length (rglob_suffix (fsys ex_state) ex_newest_X ''.npy'') = 2
   \<and> fst (find_body ex_newest_X ex_state) = Break
   \<and> combination_already_exists (ld (snd (find_body ex_newest_X ex_state)))"
proof -
  let ?fl = "[[''data'', ''corpus'', ''a.wav''], [''data'', ''corpus'', ''sub'', ''b.wav'']]"
  have raw: "\<not> dim_reduc_on (ld ex_state)" by code_simp
  have suf: "embed_suffix (ld ex_state) = ''.npy''" by code_simp
  have n1: "contains (model_name (ld ex_state)) (stem ex_newest_X)" by code_simp
  have n2: "ex_newest_X \<noteq> []" by code_simp
  have n3: "contains (stem (audio_dir (ld ex_state))) (last ex_newest_X)" by code_simp
  have dir: "is_dir (fsys ex_state) ex_newest_X" by code_simp
  have m1: "read_metadata (fsys ex_state) ex_newest_X = Inr (ex_md ''X'' ex_newest_X)"
    by code_simp
  have m2: "md_model_name (ex_md ''X'' ex_newest_X) = model_name (ld ex_state)"
    by code_simp
  have ga: "get_audio_files ex_state = Inr ?fl" by code_simp
  have cnt: "length (rglob_suffix (fsys ex_state) ex_newest_X ''.npy'') = 2" by code_simp
  from artifact_count_decides_reuse [OF raw suf n1 n2 n3 dir m1 m2 ga] ga cnt
  show ?thesis by simp
qed

text \<open>
  Claim C1 as first stated, without the two provisos, fails in both directions. The renamed
  cache has its metadata, the right model and as many \<^verbatim>\<open>.npy\<close> files as the corpus has audio
  files, and is not reused, for its name contains neither identifier. And when no file of
  the corpus matches a configured suffix, a cache with two \<^verbatim>\<open>.npy\<close> files is reused although
  no audio file was enumerated.
\<close>

theorem artifact_count_alone_counterexample:
  "(read_metadata (fsys ex_state) ex_renamed = Inr (ex_md ''X'' ex_renamed)
    \<and> md_model_name (ex_md ''X'' ex_renamed) = model_name (ld ex_state)
    \<and> length (rglob_suffix (fsys ex_state) ex_renamed ''.npy'') = 2
    \<and> map_sum id length (get_audio_files ex_state) = Inr 2
    \<and> find_body ex_renamed ex_state = (Continue, ex_state))
   \<and> (read_metadata (fsys ex_state_flac) ex_newest_X = Inr (ex_md ''X'' ex_newest_X)
    \<and> md_model_name (ex_md ''X'' ex_newest_X) = model_name (ld ex_state_flac)
    \<and> length (rglob_suffix (fsys ex_state_flac) ex_newest_X ''.npy'') = 2
    \<and> concat (map (rglob_suffix (fsys ex_state_flac) (audio_dir (ld ex_state_flac)))
                   (audio_suffixes (ld ex_state_flac))) = []
    \<and> fst (find_body ex_newest_X ex_state_flac) = Break
    \<and> combination_already_exists (ld (snd (find_body ex_newest_X ex_state_flac))))"
  by code_simp

text \<open>
  Claim C4, as amended. A candidate with no entry whose name ends in \<^verbatim>\<open>yml\<close> is never
  selected as reusable. If moreover its name contains the model identifier (in its stem)
  and the corpus identifier, then it is deleted when it is an empty directory, and
  otherwise its contents are left untouched and it is reported for manual removal; in
  both cases the scan goes on with the remaining candidates.
\<close>

theorem stale_candidate_pruned:
  assumes noyml: "glob_suffix (fsys s) d ''yml'' = []"
  shows "fst (find_body d s) \<noteq> Break \<and> (\<forall>p. fst (find_body d s) \<noteq> Return p)
       \<and> ld (snd (find_body d s)) = ld s
       \<and> (contains (model_name (ld s)) (stem d) \<and> d \<noteq> []
            \<and> contains (stem (audio_dir (ld s))) (last d) \<longrightarrow>
          scan (d # ds) s = scan ds (snd (find_body d s))
          \<and> (if is_dir (fsys s) d \<and> children (fsys s) d = []
             then find_body d s = (Continue, s\<lparr>fsys := filter (\<lambda>e. fst e \<noteq> d) (fsys s)\<rparr>)
             else find_body d s = (Continue, s\<lparr>out := out s @ [NotEmptyMsg d]\<rparr>)))"
proof -
  have general: "fst (find_body d s) \<noteq> Break \<and> (\<forall>p. fst (find_body d s) \<noteq> Return p)
       \<and> ld (snd (find_body d s)) = ld s"
    using find_body_no_yml [OF noyml] by (auto simp: prune_stale_cases split: if_splits)
  have "find_body d s = prune_stale d s"
    if "contains (model_name (ld s)) (stem d)" "d \<noteq> []"
       "contains (stem (audio_dir (ld s))) (last d)"
    using that noyml by (simp add: find_body_def)
  then show ?thesis
    using general by (auto simp: prune_stale_cases)
qed

theorem stale_candidate_pruned_witness:
  "glob_suffix (fsys ex_state) ex_stale_empty ''yml'' = []
   \<and> contains (model_name (ld ex_state)) (stem ex_stale_empty)
   \<and> contains (stem (audio_dir (ld ex_state))) (last ex_stale_empty)
   \<and> is_dir (fsys ex_state) ex_stale_empty
   \<and> children (fsys ex_state) ex_stale_empty = []
   \<and> fst (find_body ex_stale_empty ex_state) = Continue
   \<and> ld (snd (find_body ex_stale_empty ex_state)) = ld ex_state
   \<and> \<not> is_dir (fsys (snd (find_body ex_stale_empty ex_state))) ex_stale_empty"
proof -
  have h: "glob_suffix (fsys ex_state) ex_stale_empty ''yml'' = []" by code_simp
  have n1: "contains (model_name (ld ex_state)) (stem ex_stale_empty)" by code_simp
  have n2: "ex_stale_empty \<noteq> []" by code_simp
  have n3: "contains (stem (audio_dir (ld ex_state))) (last ex_stale_empty)" by code_simp
  have d: "is_dir (fsys ex_state) ex_stale_empty" by code_simp
  have c: "children (fsys ex_state) ex_stale_empty = []" by code_simp
  have gone: "\<not> is_dir (filter (\<lambda>e. fst e \<noteq> ex_stale_empty) (fsys ex_state)) ex_stale_empty"
    by code_simp
  from stale_candidate_pruned [OF h, of "[]"] n1 n2 n3 d c h gone show ?thesis
    by simp
qed

text \<open>
  Claim C4 as first stated, for every candidate, fails: an empty directory without
  metadata whose name does not contain the model identifier is passed over and stays on
  disk.
\<close>

theorem stale_other_name_counterexample:
  "glob_suffix (fsys ex_state) ex_empty_Y ''yml'' = []
   \<and> is_dir (fsys ex_state) ex_empty_Y
   \<and> children (fsys ex_state) ex_empty_Y = []
   \<and> find_body ex_empty_Y ex_state = (Continue, ex_state)
   \<and> is_dir (fsys (snd (find_body ex_empty_Y ex_state))) ex_empty_Y"
  by code_simp

subsection \<open>The override name and the empty cache root\<close>

lemma read_metadata_error:
  "read_metadata fs d = Inl e \<Longrightarrow> e \<noteq> IndexError"
  by (auto simp: read_metadata_def split: option.splits fobj.splits)

lemma get_metadata_dict_error:
  "get_metadata_dict d s = Inl e \<Longrightarrow> e \<noteq> IndexError"
  by (auto simp: get_metadata_dict_def Let_def dest: read_metadata_error split: sum.splits)

lemma get_audio_files_error:
  "get_audio_files s = Inl e \<Longrightarrow> e = AssertionError"
  by (auto simp: get_audio_files_def Let_def split: if_splits)

lemma find_raw_error:
  "fst (find_raw d s) \<noteq> Raise IndexError"
  by (auto simp: find_raw_def Let_def dest: get_metadata_dict_error get_audio_files_error
      split: sum.splits if_splits)

lemma find_body_IndexError:
  assumes "d \<noteq> []"
  shows "fst (find_body d s) \<noteq> Raise IndexError"
  using assms find_raw_error [of d s]
  by (auto simp: find_body_def find_reduc_def prune_stale_cases dest: read_metadata_error
      split: sum.splits if_splits)

lemma scan_single: "scan [d] s = (case find_body d s of
        (Continue, s') \<Rightarrow> (Inr None, s')
      | (Break, s') \<Rightarrow> (Inr None, s')
      | (Return p, s') \<Rightarrow> (Inr (Some p), s')
      | (Raise e, s') \<Rightarrow> (Inl e, s'))"
  by (simp split: prod.splits flow.splits)

lemma scan_single_error:
  assumes "fst (scan [d] s) = Inl e"
  shows "fst (find_body d s) = Raise e"
  using assms by (auto simp: scan_single split: prod.splits flow.splits)

text \<open>
  Claim C10. When the reuse policy is a (non-empty) directory name and the cache root of
  the stage is a directory without entries, \<^verbatim>\<open>check_embeds_already_exist\<close> raises
  \<^verbatim>\<open>IndexError\<close> from indexing the empty list of candidates, instead of ending with
  nothing found. When the cache root has at least one entry, no \<^verbatim>\<open>IndexError\<close> is raised.
\<close>

theorem override_needs_nonempty_parent:
  assumes pol: "check_if_combination_exists (ld s) = Name n" and n: "n \<noteq> []"
    and P: "P = (if dim_reduc_on (ld s) then dim_reduc_parent_dir (ld s)
                 else embed_parent_dir (ld s))"
    and dir: "is_dir (fsys s) P"
  shows "(children (fsys s) P = [] \<longrightarrow>
            check_embeds_already_exist s =
              (Some IndexError,
               s\<lparr>ld := (ld s)\<lparr>combination_already_exists := False,
                               dim_reduc_embed_dir := None\<rparr>\<rparr>))
       \<and> (children (fsys s) P \<noteq> [] \<longrightarrow>
            fst (check_embeds_already_exist s) \<noteq> Some IndexError)"
proof -
  let ?s = "s\<lparr>ld := (ld s)\<lparr>combination_already_exists := False,
                             dim_reduc_embed_dir := None\<rparr>\<rparr>"
  have same: "dim_reduc_on (l\<lparr>combination_already_exists := a, dim_reduc_embed_dir := b\<rparr>)
                = dim_reduc_on l" for l a b
    by (simp add: dim_reduc_on_def)
  have Q: "(if dim_reduc_on (ld ?s) then dim_reduc_parent_dir (ld ?s)
            else embed_parent_dir (ld ?s)) = P"
    by (auto simp: P same)
  have it: "iterdir (fsys ?s)
              (if dim_reduc_on (ld ?s) then dim_reduc_parent_dir (ld ?s)
               else embed_parent_dir (ld ?s)) = Inr (children (fsys s) P)"
    unfolding Q using dir by (simp add: iterdir_def is_dir_def)
  have tr: "policy_truthy (check_if_combination_exists (ld ?s))"
    using pol n by simp
  have empty: "check_embeds_already_exist s = (Some IndexError, ?s)"
    if "children (fsys s) P = []"
    using that it tr pol by (simp add: check_embeds_already_exist_def Let_def)
  have nonempty: "fst (check_embeds_already_exist s) \<noteq> Some IndexError"
    if ne: "children (fsys s) P \<noteq> []"
  proof -
    obtain d0 rest where c: "children (fsys s) P = d0 # rest"
      using ne by (cases "children (fsys s) P") auto
    let ?d = "joinpath (parent d0) n"
    have eq: "check_embeds_already_exist s =
            (case scan [?d] ?s of (Inl e, s') \<Rightarrow> (Some e, s') | (Inr _, s') \<Rightarrow> (None, s'))"
      using it tr pol c
      by (simp add: check_embeds_already_exist_def Let_def find_existing_embed_dir_def)
    have "?d \<noteq> []" by (simp add: joinpath_def)
    then have "fst (find_body ?d ?s) \<noteq> Raise IndexError"
      by (rule find_body_IndexError)
    then have "fst (scan [?d] ?s) \<noteq> Inl IndexError"
      using scan_single_error by blast
    then show ?thesis
      unfolding eq by (auto split: prod.splits sum.splits)
  qed
  show ?thesis using empty nonempty by blast
qed

theorem override_needs_nonempty_parent_witness:
  "check_if_combination_exists (ld ex_state_override) = Name ''renamed_run''
   \<and> is_dir (fsys ex_state_override) [''res'', ''fresh'']
   \<and> children (fsys ex_state_override) [''res'', ''fresh''] = []
   \<and> fst (check_embeds_already_exist ex_state_override) = Some IndexError"
proof -
  have pol: "check_if_combination_exists (ld ex_state_override) = Name ''renamed_run''"
    by code_simp
  have n: "''renamed_run'' \<noteq> []" by simp
  have P: "[''res'', ''fresh''] =
             (if dim_reduc_on (ld ex_state_override)
              then dim_reduc_parent_dir (ld ex_state_override)
              else embed_parent_dir (ld ex_state_override))"
    by code_simp
  have dir: "is_dir (fsys ex_state_override) [''res'', ''fresh'']" by code_simp
  have c: "children (fsys ex_state_override) [''res'', ''fresh''] = []" by code_simp
  from override_needs_nonempty_parent [OF pol n P dir] pol dir c show ?thesis
    by simp
qed

subsection \<open>The most recent compatible candidate wins\<close>

lemma map_of_remove:
  "map_of (filter (\<lambda>e. fst e \<noteq> x) fs) k = (if k = x then None else map_of fs k)"
  by (induction fs) auto

lemma is_dir_remove:
  "d \<noteq> x \<Longrightarrow> is_dir (filter (\<lambda>e. fst e \<noteq> x) fs) d = is_dir fs d"
  by (simp add: is_dir_def map_of_remove)

lemma map_fst_remove:
  "map fst (filter (\<lambda>e. fst e \<noteq> x) fs) = filter (\<lambda>q. q \<noteq> x) (map fst fs)"
  by (induction fs) auto

lemma child_strict_prefix:
  "q \<noteq> [] \<Longrightarrow> butlast q = d \<Longrightarrow> strict_prefix d q"
  by (metis append_butlast_last_id prefix_order.dual_order.strict_iff_order prefixI self_append_conv snoc_eq_iff_butlast)

lemma children_remove:
  assumes "\<not> strict_prefix d x"
  shows "children (filter (\<lambda>e. fst e \<noteq> x) fs) d = children fs d"
proof -
  have "q \<noteq> x" if "q \<noteq> []" "butlast q = d" for q
    using that assms child_strict_prefix by blast
  then show ?thesis
    by (auto simp: children_def map_fst_remove intro: filter_cong)
qed

lemma rglob_remove:
  assumes "d \<noteq> x" and "\<not> strict_prefix d x"
  shows "rglob_suffix (filter (\<lambda>e. fst e \<noteq> x) fs) d suf = rglob_suffix fs d suf"
  using assms
  by (auto simp: rglob_suffix_def is_dir_remove map_fst_remove intro: filter_cong)

lemma glob_remove:
  assumes "d \<noteq> x" and "\<not> strict_prefix d x"
  shows "glob_suffix (filter (\<lambda>e. fst e \<noteq> x) fs) d suf = glob_suffix fs d suf"
  using assms by (simp add: glob_suffix_def is_dir_remove children_remove)

lemma read_metadata_remove:
  assumes "\<not> strict_prefix d x"
  shows "read_metadata (filter (\<lambda>e. fst e \<noteq> x) fs) d = read_metadata fs d"
proof -
  have "joinpath d ''metadata.yml'' \<noteq> x"
    using assms by (auto simp: joinpath_def strict_prefix_def)
  then show ?thesis
    by (simp add: read_metadata_def map_of_remove)
qed

lemma get_audio_files_cong:
  assumes "ld s' = ld s"
    and "\<And>suf. rglob_suffix (fsys s') (audio_dir (ld s)) suf
                = rglob_suffix (fsys s) (audio_dir (ld s)) suf"
  shows "get_audio_files s' = get_audio_files s"
  using assms by (simp add: get_audio_files_def)

lemma continue_shape:
  assumes "find_body x s = (Continue, s1)"
  shows "ld s1 = ld s
       \<and> (fsys s1 = fsys s \<or> fsys s1 = filter (\<lambda>e. fst e \<noteq> x) (fsys s))"
proof -
  have raw: "find_raw x s = (Continue, s1) \<Longrightarrow> s1 = s"
    by (auto simp: find_raw_def Let_def split: sum.splits if_splits)
  have red: "find_reduc x s \<noteq> (Continue, s1)"
    by (auto simp: find_reduc_def)
  show ?thesis
    using assms raw red
    by (auto simp: find_body_def prune_stale_cases split: if_splits sum.splits)
qed

lemma find_body_flow_cong:
  assumes "ld s' = ld s"
    and "glob_suffix (fsys s') d ''yml'' = glob_suffix (fsys s) d ''yml''"
    and "read_metadata (fsys s') d = read_metadata (fsys s) d"
    and "rglob_suffix (fsys s') d (embed_suffix (ld s))
           = rglob_suffix (fsys s) d (embed_suffix (ld s))"
    and "get_audio_files s' = get_audio_files s"
  shows "fst (find_body d s') = fst (find_body d s)"
proof -
  have gm: "(\<exists>e. get_metadata_dict d t = Inl e) \<longleftrightarrow> (\<exists>e. read_metadata (fsys t) d = Inl e)"
    for t
    by (auto simp: get_metadata_dict_def Let_def split: sum.splits)
  have prune: "fst (prune_stale d t) = Continue" for t
    by (simp add: prune_stale_cases)
  have reduc: "fst (find_reduc d s') = fst (find_reduc d s)"
    using assms(1) by (simp add: find_reduc_def)
  have raw: "fst (find_raw d s') = fst (find_raw d s)"
    if "read_metadata (fsys s) d = Inr md" for md
  proof -
    have ok: "\<exists>t'. get_metadata_dict d t = Inr t'" if "fsys t = fsys s \<or> fsys t = fsys s'" for t
      using that \<open>read_metadata (fsys s) d = Inr md\<close> assms(3)
      by (auto simp: get_metadata_dict_def Let_def)
    show ?thesis
      using assms(1,4,5) ok [of s] ok [of s']
        ok [of "s\<lparr>ld := (ld s)\<lparr>combination_already_exists := True\<rparr>\<rparr>"]
        ok [of "s'\<lparr>ld := (ld s)\<lparr>combination_already_exists := True\<rparr>\<rparr>"]
      by (auto simp: find_raw_def Let_def split: sum.splits)
  qed
  show ?thesis
    using assms(1,2,3) prune reduc raw
    by (auto simp: find_body_def split: sum.splits)
qed

lemma same_view_refl: "same_view d s s"
  by (simp add: same_view_def)

lemma same_view_trans:
  "same_view d s0 s \<Longrightarrow> same_view d s s1 \<Longrightarrow> same_view d s0 s1"
  by (simp add: same_view_def)

lemma same_view_flow:
  "same_view d s0 s \<Longrightarrow> fst (find_body d s) = fst (find_body d s0)"
  by (rule find_body_flow_cong) (simp_all add: same_view_def)

lemma continue_keeps_view:
  assumes c: "find_body x s = (Continue, s1)"
    and d: "d \<noteq> x" "\<not> strict_prefix d x"
    and a: "\<not> prefix (audio_dir (ld s)) x"
  shows "same_view d s s1"
proof -
  from continue_shape [OF c] have l: "ld s1 = ld s"
    and f: "fsys s1 = fsys s \<or> fsys s1 = filter (\<lambda>e. fst e \<noteq> x) (fsys s)"
    by simp_all
  have a': "audio_dir (ld s) \<noteq> x" "\<not> strict_prefix (audio_dir (ld s)) x"
    using a by (auto simp: strict_prefix_def)
  have "get_audio_files s1 = get_audio_files s"
  proof (rule get_audio_files_cong [OF l])
    fix suf
    show "rglob_suffix (fsys s1) (audio_dir (ld s)) suf
            = rglob_suffix (fsys s) (audio_dir (ld s)) suf"
      using f a' by (auto simp: rglob_remove)
  qed
  then show ?thesis
    using l f d by (auto simp: same_view_def glob_remove rglob_remove read_metadata_remove)
qed

lemma scan_skips_prefix:
  assumes "\<forall>x\<in>set pre. fst (find_body x s0) = Continue"
    and "\<forall>x\<in>set pre. \<not> prefix (audio_dir (ld s0)) x"
    and "distinct pre"
    and "\<forall>x\<in>set pre. \<forall>y\<in>set pre. \<not> strict_prefix x y"
    and "\<forall>x\<in>set pre. x \<noteq> m \<and> \<not> strict_prefix m x"
    and "\<forall>d\<in>set pre \<union> {m}. same_view d s0 s"
  shows "\<exists>s'. scan (pre @ rest) s = scan rest s' \<and> same_view m s0 s'"
  using assms
proof (induction pre arbitrary: s)
  case Nil
  then show ?case by auto
next
  case (Cons x pre)
  have vx: "same_view x s0 s" using Cons.prems(6) by simp
  then have "fst (find_body x s) = Continue"
    using Cons.prems(1) by (simp add: same_view_flow)
  then obtain s1 where s1: "find_body x s = (Continue, s1)"
    by (metis prod.collapse)
  have lds: "ld s = ld s0" using vx by (simp add: same_view_def)
  have ax: "\<not> prefix (audio_dir (ld s)) x"
    using Cons.prems(2) lds by simp
  have keep: "same_view d s0 s1" if "d \<in> set pre \<union> {m}" for d
  proof -
    have "d \<noteq> x" "\<not> strict_prefix d x"
      using that Cons.prems(3,4,5) by auto
    from continue_keeps_view [OF s1 this ax] have "same_view d s s1" .
    moreover have "same_view d s0 s" using that Cons.prems(6) by auto
    ultimately show ?thesis by (blast intro: same_view_trans)
  qed
  have "\<exists>s'. scan (pre @ rest) s1 = scan rest s' \<and> same_view m s0 s'"
    using Cons.prems(1-5) keep by (intro Cons.IH) auto
  then show ?case
    using s1 by simp
qed

lemma sorted_rev_split:
  fixes m :: "'a::linorder"
  assumes "sorted xs" and "distinct xs" and "rev xs = pre @ m # post"
  shows "\<forall>x\<in>set pre. m < x"
proof -
  have "rev (rev xs) = rev (pre @ m # post)"
    using assms(3) by simp
  then have "xs = rev post @ m # rev pre"
    by simp
  then have "sorted (rev post @ m # rev pre)" "distinct (rev post @ m # rev pre)"
    using assms(1,2) by simp_all
  then show ?thesis
    by (auto simp: sorted_append less_le)
qed

lemma break_result:
  assumes "fst (find_body d s) = Break"
  shows "combination_already_exists (ld (snd (find_body d s)))
       \<and> (if dim_reduc_on (ld s) then embed_dir (ld (snd (find_body d s))) = Some d
          else \<exists>md. read_metadata (fsys s) d = Inr md
                 \<and> metadata_dict (ld (snd (find_body d s))) = Some md)"
proof -
  have raw: "fst (find_raw d s) = Break \<Longrightarrow> read_metadata (fsys s) d = Inr md \<Longrightarrow>
      combination_already_exists (ld (snd (find_raw d s)))
      \<and> metadata_dict (ld (snd (find_raw d s))) = Some md" for md
  proof -
    assume b: "fst (find_raw d s) = Break" and r: "read_metadata (fsys s) d = Inr md"
    let ?s1 = "s\<lparr>ld := (ld s)\<lparr>combination_already_exists := True\<rparr>\<rparr>"
    from get_metadata_dict_ok [of s d md] r
    obtain t where t: "get_metadata_dict d s = Inr t" "metadata_dict (ld t) = Some md"
      by blast
    from get_metadata_dict_ok [of ?s1 d md] r
    obtain t1 where t1: "get_metadata_dict d ?s1 = Inr t1" "metadata_dict (ld t1) = Some md"
        "combination_already_exists (ld t1)"
      by auto
    show ?thesis
    proof (cases "get_audio_files s")
      case (Inl e)
      with b t show ?thesis
        by (simp add: find_raw_def split: if_splits)
    next
      case (Inr fl)
      with b t1 show ?thesis
        by (simp add: find_raw_def Let_def split: if_splits)
    qed
  qed
  have red: "fst (find_reduc d s) = Break \<Longrightarrow>
      combination_already_exists (ld (snd (find_reduc d s)))
      \<and> embed_dir (ld (snd (find_reduc d s))) = Some d"
    by (auto simp: find_reduc_def split: if_splits)
  show ?thesis
    using assms raw red
    by (auto simp: find_body_def prune_stale_cases split: if_splits sum.splits)
qed

lemma children_siblings:
  assumes "x \<in> set (children fs P)" and "y \<in> set (children fs P)"
  shows "\<not> strict_prefix x y"
proof
  assume "strict_prefix x y"
  then have "length x < length y"
    by (metis prefix_length_less)
  moreover have "length x = Suc (length P)" "length y = Suc (length P)"
  proof -
    have "length q = Suc (length P)" if "q \<noteq> []" "butlast q = P" for q :: path
      using that by (cases q rule: rev_cases) auto
    then show "length x = Suc (length P)" "length y = Suc (length P)"
      using assms by (auto simp: children_def)
  qed
  ultimately show False by simp
qed

lemma children_distinct:
  "distinct (map fst fs) \<Longrightarrow> distinct (children fs P)"
  by (simp add: children_def)

text \<open>
  Claim C7, as amended. The candidates are sorted ascending and scanned in reverse. So
  when \<open>m\<close> is compatible with the request (examined on its own it is marked reusable),
  every compatible candidate has a name at most that of \<open>m\<close>, and no candidate with a
  greater name ends the scan before \<open>m\<close> is reached (as the upstream directory returned
  for a reduction request, or by an exception), then \<open>m\<close> is the candidate selected: the
  flag is set, and the loader holds the record of \<open>m\<close> (raw stage) or \<open>m\<close> itself as
  \<^verbatim>\<open>embed_dir\<close> (reduction stage). The file system lists every path once, and no
  candidate lies at or below the corpus root.
\<close>

theorem newest_compatible_candidate_selected:
  assumes wf: "distinct (map fst (fsys s))"
    and pol: "check_if_combination_exists (ld s) = Flag True"
    and P: "P = (if dim_reduc_on (ld s) then dim_reduc_parent_dir (ld s)
                 else embed_parent_dir (ld s))"
    and dir: "is_dir (fsys s) P"
    and sep: "\<forall>d\<in>set (children (fsys s) P). \<not> prefix (audio_dir (ld s)) d"
    and s0: "s0 = s\<lparr>ld := (ld s)\<lparr>combination_already_exists := False,
                                    dim_reduc_embed_dir := None\<rparr>\<rparr>"
    and m: "m \<in> set (children (fsys s) P)" "fst (find_body m s0) = Break"
    and newest: "\<forall>d\<in>set (children (fsys s) P). fst (find_body d s0) = Break \<longrightarrow> d \<le> m"
    and others: "\<forall>d\<in>set (children (fsys s) P). m < d \<longrightarrow>
                   fst (find_body d s0) = Continue \<or> fst (find_body d s0) = Break"
  shows "fst (check_embeds_already_exist s) = None
       \<and> combination_already_exists (ld (snd (check_embeds_already_exist s)))
       \<and> (if dim_reduc_on (ld s)
          then embed_dir (ld (snd (check_embeds_already_exist s))) = Some m
          else \<exists>md. read_metadata (fsys s) m = Inr md
                 \<and> metadata_dict (ld (snd (check_embeds_already_exist s))) = Some md)"
proof -
  let ?cs = "children (fsys s) P"
  have same: "dim_reduc_on (l\<lparr>combination_already_exists := a, dim_reduc_embed_dir := b\<rparr>)
                = dim_reduc_on l" for l a b
    by (simp add: dim_reduc_on_def)
  have Q: "(if dim_reduc_on (ld s0) then dim_reduc_parent_dir (ld s0)
            else embed_parent_dir (ld s0)) = P"
    by (auto simp: P s0 same)
  have it: "iterdir (fsys s0)
              (if dim_reduc_on (ld s0) then dim_reduc_parent_dir (ld s0)
               else embed_parent_dir (ld s0)) = Inr ?cs"
    unfolding Q using dir by (simp add: iterdir_def is_dir_def s0)
  have run: "check_embeds_already_exist s =
          (case scan (rev (sort ?cs)) s0 of
             (Inl e, s') \<Rightarrow> (Some e, s') | (Inr _, s') \<Rightarrow> (None, s'))"
  proof -
    have "check_if_combination_exists (ld s0) = Flag True"
      using pol by (simp add: s0)
    with it show ?thesis
      by (simp add: check_embeds_already_exist_def Let_def find_existing_embed_dir_def
          flip: s0)
  qed
  have "m \<in> set (rev (sort ?cs))"
    using m(1) by simp
  then obtain pre post where split: "rev (sort ?cs) = pre @ m # post"
    by (meson split_list)
  have dist: "distinct (sort ?cs)"
    using wf by (simp add: children_distinct)
  have greater: "\<forall>x\<in>set pre. m < x"
    using sorted_rev_split [OF _ dist split] by simp
  have sub: "set pre \<subseteq> set ?cs"
  proof -
    have "set pre \<subseteq> set (rev (sort ?cs))"
      unfolding split by auto
    then show ?thesis by simp
  qed
  have cont: "\<forall>x\<in>set pre. fst (find_body x s0) = Continue"
  proof
    fix x assume x: "x \<in> set pre"
    then have xc: "x \<in> set ?cs" and gt: "m < x"
      using sub greater by auto
    from newest xc gt have "fst (find_body x s0) \<noteq> Break"
      by auto
    moreover from others xc gt
    have "fst (find_body x s0) = Continue \<or> fst (find_body x s0) = Break"
      by auto
    ultimately show "fst (find_body x s0) = Continue"
      by auto
  qed
  have lds0: "audio_dir (ld s0) = audio_dir (ld s)" "fsys s0 = fsys s"
    "dim_reduc_on (ld s0) = dim_reduc_on (ld s)"
    by (simp_all add: s0 same)
  have a: "\<forall>x\<in>set pre. \<not> prefix (audio_dir (ld s0)) x"
    using sep sub lds0 by auto
  have dp: "distinct pre"
  proof -
    have "distinct (rev (sort ?cs))" using dist by simp
    then show ?thesis unfolding split by simp
  qed
  have sib: "\<forall>x\<in>set pre. \<forall>y\<in>set pre. \<not> strict_prefix x y"
    using sub children_siblings by blast
  have mm: "\<forall>x\<in>set pre. x \<noteq> m \<and> \<not> strict_prefix m x"
    using greater sub m(1) children_siblings by fastforce
  have "\<forall>d\<in>set pre \<union> {m}. same_view d s0 s0"
    by (simp add: same_view_refl)
  from scan_skips_prefix [OF cont a dp sib mm this, of "m # post"]
  obtain s' where s': "scan (pre @ m # post) s0 = scan (m # post) s'" "same_view m s0 s'"
    by blast
  have flow: "fst (find_body m s') = Break"
    using same_view_flow [OF s'(2)] m(2) by simp
  then have fb: "find_body m s' = (Break, snd (find_body m s'))"
    by (metis prod.collapse)
  have sc: "scan (rev (sort ?cs)) s0 = (Inr None, snd (find_body m s'))"
    unfolding split s'(1) by (subst scan.simps, subst fb) simp
  have view: "ld s' = ld s0" "read_metadata (fsys s') m = read_metadata (fsys s0) m"
    using s'(2) by (simp_all add: same_view_def)
  from break_result [OF flow] view lds0
  have "combination_already_exists (ld (snd (find_body m s')))
       \<and> (if dim_reduc_on (ld s) then embed_dir (ld (snd (find_body m s'))) = Some m
          else \<exists>md. read_metadata (fsys s) m = Inr md
                 \<and> metadata_dict (ld (snd (find_body m s'))) = Some md)"
    by (auto split: if_splits)
  then show ?thesis
    unfolding run sc by simp
qed

text \<open>
  In the raw stage the newer of the two complete caches of model \<^verbatim>\<open>X\<close> is selected, past
  the newer directories that are skipped or pruned. In the reduction stage the newer of
  the two \<^verbatim>\<open>umap\<close> caches is selected, past the newer cache of model \<^verbatim>\<open>X2\<close>.
\<close>

theorem newest_compatible_candidate_selected_witness:
  "(fst (find_body ex_newest_X ex_state) = Break
    \<and> fst (find_body ex_older_X ex_state) = Break
    \<and> ex_older_X < ex_newest_X
    \<and> fst (check_embeds_already_exist ex_state) = None
    \<and> combination_already_exists (ld (snd (check_embeds_already_exist ex_state)))
    \<and> metadata_dict (ld (snd (check_embeds_already_exist ex_state)))
        = Some (ex_md ''X'' ex_newest_X))
   \<and> (dim_reduc_on (ld ex_state_reduc)
    \<and> fst (find_body ex_umap_newest ex_state_reduc) = Break
    \<and> fst (find_body ex_umap_older ex_state_reduc) = Break
    \<and> ex_umap_older < ex_umap_newest
    \<and> fst (check_embeds_already_exist ex_state_reduc) = None
    \<and> combination_already_exists (ld (snd (check_embeds_already_exist ex_state_reduc)))
    \<and> embed_dir (ld (snd (check_embeds_already_exist ex_state_reduc)))
        = Some ex_umap_newest)"
proof -
  let ?s0 = "ex_state\<lparr>ld := (ld ex_state)\<lparr>combination_already_exists := False,
                                             dim_reduc_embed_dir := None\<rparr>\<rparr>"
  have s0: "?s0 = ex_state" by code_simp
  have wf: "distinct (map fst (fsys ex_state))" by code_simp
  have pol: "check_if_combination_exists (ld ex_state) = Flag True" by code_simp
  have P: "ex_parent = (if dim_reduc_on (ld ex_state) then dim_reduc_parent_dir (ld ex_state)
                        else embed_parent_dir (ld ex_state))"
    by code_simp
  have dir: "is_dir (fsys ex_state) ex_parent" by code_simp
  have sep: "\<forall>d\<in>set (children (fsys ex_state) ex_parent).
               \<not> prefix (audio_dir (ld ex_state)) d"
    by code_simp
  have m1: "ex_newest_X \<in> set (children (fsys ex_state) ex_parent)" by code_simp
  have m2: "fst (find_body ex_newest_X ?s0) = Break" by code_simp
  have newest: "\<forall>d\<in>set (children (fsys ex_state) ex_parent).
                  fst (find_body d ?s0) = Break \<longrightarrow> d \<le> ex_newest_X"
    by code_simp
  have others: "\<forall>d\<in>set (children (fsys ex_state) ex_parent). ex_newest_X < d \<longrightarrow>
                  fst (find_body d ?s0) = Continue \<or> fst (find_body d ?s0) = Break"
    by code_simp
  have o1: "fst (find_body ex_older_X ex_state) = Break" by code_simp
  have o2: "ex_older_X < ex_newest_X" by code_simp
  have r: "read_metadata (fsys ex_state) ex_newest_X = Inr (ex_md ''X'' ex_newest_X)"
    by code_simp
  have raw: "\<not> dim_reduc_on (ld ex_state)" by code_simp
  from newest_compatible_candidate_selected [OF wf pol P dir sep refl m1 m2 newest others]
    m2 o1 o2 r raw s0
  have raw_stage:
    "fst (find_body ex_newest_X ex_state) = Break
     \<and> fst (find_body ex_older_X ex_state) = Break
     \<and> ex_older_X < ex_newest_X
     \<and> fst (check_embeds_already_exist ex_state) = None
     \<and> combination_already_exists (ld (snd (check_embeds_already_exist ex_state)))
     \<and> metadata_dict (ld (snd (check_embeds_already_exist ex_state)))
         = Some (ex_md ''X'' ex_newest_X)"
    by simp
  let ?t0 = "ex_state_reduc\<lparr>ld := (ld ex_state_reduc)\<lparr>combination_already_exists := False,
                                                       dim_reduc_embed_dir := None\<rparr>\<rparr>"
  have t0: "?t0 = ex_state_reduc" by code_simp
  have wf': "distinct (map fst (fsys ex_state_reduc))" by code_simp
  have pol': "check_if_combination_exists (ld ex_state_reduc) = Flag True" by code_simp
  have P': "ex_dim_parent =
             (if dim_reduc_on (ld ex_state_reduc) then dim_reduc_parent_dir (ld ex_state_reduc)
              else embed_parent_dir (ld ex_state_reduc))"
    by code_simp
  have dir': "is_dir (fsys ex_state_reduc) ex_dim_parent" by code_simp
  have sep': "\<forall>d\<in>set (children (fsys ex_state_reduc) ex_dim_parent).
               \<not> prefix (audio_dir (ld ex_state_reduc)) d"
    by code_simp
  have m1': "ex_umap_newest \<in> set (children (fsys ex_state_reduc) ex_dim_parent)"
    by code_simp
  have m2': "fst (find_body ex_umap_newest ?t0) = Break" by code_simp
  have newest': "\<forall>d\<in>set (children (fsys ex_state_reduc) ex_dim_parent).
                  fst (find_body d ?t0) = Break \<longrightarrow> d \<le> ex_umap_newest"
    by code_simp
  have others': "\<forall>d\<in>set (children (fsys ex_state_reduc) ex_dim_parent).
                  ex_umap_newest < d \<longrightarrow>
                  fst (find_body d ?t0) = Continue \<or> fst (find_body d ?t0) = Break"
    by code_simp
  have o1': "fst (find_body ex_umap_older ex_state_reduc) = Break" by code_simp
  have o2': "ex_umap_older < ex_umap_newest" by code_simp
  have red: "dim_reduc_on (ld ex_state_reduc)" by code_simp
  from newest_compatible_candidate_selected
         [OF wf' pol' P' dir' sep' refl m1' m2' newest' others']
    m2' o1' o2' red t0
  have reduction_stage:
    "dim_reduc_on (ld ex_state_reduc)
     \<and> fst (find_body ex_umap_newest ex_state_reduc) = Break
     \<and> fst (find_body ex_umap_older ex_state_reduc) = Break
     \<and> ex_umap_older < ex_umap_newest
     \<and> fst (check_embeds_already_exist ex_state_reduc) = None
     \<and> combination_already_exists (ld (snd (check_embeds_already_exist ex_state_reduc)))
     \<and> embed_dir (ld (snd (check_embeds_already_exist ex_state_reduc)))
         = Some ex_umap_newest"
    by simp
  from raw_stage reduction_stage show ?thesis
    by (rule conjI)
qed

text \<open>
  Claim C7 as first stated, for any two compatible candidates, fails in the reduction
  stage. Both \<^verbatim>\<open>umap\<close> caches of model \<^verbatim>\<open>X\<close> are compatible, but the \<^verbatim>\<open>pca\<close> cache of the
  same model is newer: it passes the test of the name and of the metadata, its name does
  not contain the reducer, and the scan ends there with that directory returned as the
  upstream one. Nothing is selected.
\<close>

theorem newer_upstream_hides_compatible_counterexample:
  "fst (find_body ex_umap_newest ex_state_reduc_hidden) = Break
   \<and> fst (find_body ex_umap_older ex_state_reduc_hidden) = Break
   \<and> ex_umap_older < ex_umap_newest
   \<and> ex_umap_newest < ex_pca_newer
   \<and> find_body ex_pca_newer ex_state_reduc_hidden = (Return ex_pca_newer, ex_state_reduc_hidden)
   \<and> fst (check_embeds_already_exist ex_state_reduc_hidden) = None
   \<and> \<not> combination_already_exists (ld (snd (check_embeds_already_exist ex_state_reduc_hidden)))
   \<and> embed_dir (ld (snd (check_embeds_already_exist ex_state_reduc_hidden))) = None"
  by code_simp

section \<open>Properties of the fresh run\<close>

lemma set_get_audio_files:
  assumes "get_audio_files s = Inr fl"
  shows "sorted fl \<and> distinct fl
       \<and> set fl = (\<Union>suf\<in>set (audio_suffixes (ld s)).
                     set (rglob_suffix (fsys s) (audio_dir (ld s)) suf))"
  using assms by (auto simp: get_audio_files_def Let_def split: if_splits)

text \<open>
  Claim C8. When no file below the corpus root matches a configured suffix,
  \<^verbatim>\<open>_get_audio_paths\<close> fails with the assertion error of the enumeration, which nothing
  catches. Otherwise it succeeds, and the list of audio files it leaves in \<^verbatim>\<open>files\<close> is
  sorted by path, without duplicates, and holds exactly the matching files.
\<close>

theorem fresh_enumeration_sorted_or_fatal:
  "(if \<forall>suf\<in>set (audio_suffixes (ld s)). rglob_suffix (fsys s) (audio_dir (ld s)) suf = []
    then get_audio_paths clock s = (Some AssertionError, s)
    else fst (get_audio_paths clock s) = None
       \<and> sorted (files (ld (snd (get_audio_paths clock s))))
       \<and> distinct (files (ld (snd (get_audio_paths clock s))))
       \<and> set (files (ld (snd (get_audio_paths clock s)))) =
           (\<Union>suf\<in>set (audio_suffixes (ld s)).
              set (rglob_suffix (fsys s) (audio_dir (ld s)) suf))
       \<and> fsys (snd (get_audio_paths clock s)) = fsys s)"
proof (cases "\<forall>suf\<in>set (audio_suffixes (ld s)).
                rglob_suffix (fsys s) (audio_dir (ld s)) suf = []")
  case True
  then have "get_audio_files s = Inl AssertionError"
    by (rule get_audio_files_fail)
  with True show ?thesis
    by (simp add: get_audio_paths_def)
next
  case False
  then have "concat (map (\<lambda>suf. rglob_suffix (fsys s) (audio_dir (ld s)) suf)
                         (audio_suffixes (ld s))) \<noteq> []"
    by auto
  then obtain fl where fl: "get_audio_files s = Inr fl"
    by (auto simp: get_audio_files_def Let_def sort_eq_Nil)
  from set_get_audio_files [OF fl] fl False show ?thesis
    by (simp add: get_audio_paths_def)
qed

theorem fresh_enumeration_sorted_or_fatal_witness:
  "get_audio_paths ex_clock ex_state_flac = (Some AssertionError, ex_state_flac)
   \<and> fst (get_audio_paths ex_clock ex_state) = None
   \<and> sorted (files (ld (snd (get_audio_paths ex_clock ex_state))))
   \<and> set (files (ld (snd (get_audio_paths ex_clock ex_state)))) =
       {[''data'', ''corpus'', ''a.wav''], [''data'', ''corpus'', ''sub'', ''b.wav'']}"
proof -
  have e1: "\<forall>suf\<in>set (audio_suffixes (ld ex_state_flac)).
              rglob_suffix (fsys ex_state_flac) (audio_dir (ld ex_state_flac)) suf = []"
    by code_simp
  have e2: "\<not> (\<forall>suf\<in>set (audio_suffixes (ld ex_state)).
              rglob_suffix (fsys ex_state) (audio_dir (ld ex_state)) suf = [])"
    by code_simp
  have u: "(\<Union>suf\<in>set (audio_suffixes (ld ex_state)).
              set (rglob_suffix (fsys ex_state) (audio_dir (ld ex_state)) suf))
           = {[''data'', ''corpus'', ''a.wav''], [''data'', ''corpus'', ''sub'', ''b.wav'']}"
    by code_simp
  from fresh_enumeration_sorted_or_fatal [of ex_state_flac ex_clock]
    fresh_enumeration_sorted_or_fatal [of ex_state ex_clock] e1 e2 u
  show ?thesis by simp
qed

subsection \<open>The name of a new cache directory\<close>

lemma strftime_plain:
  "CHR ''%'' \<notin> set cs \<Longrightarrow> strftime clock cs = cs"
  by (induction clock cs rule: strftime.induct) auto

lemma strftime_Cons_plain:
  "c \<noteq> CHR ''%'' \<Longrightarrow> strftime clock (c # cs) = c # strftime clock cs"
  by (cases cs) auto

lemma get_timestamp_dir_plain:
  assumes "CHR ''%'' \<notin> set (if dim_reduc_on l then the (dim_reduction_model l) else model_name l)"
    and "CHR ''%'' \<notin> set (stem (audio_dir l))"
  shows "get_timestamp_dir clock l =
           strftime clock ''%Y-%m-%d_%H-%M'' @ ''___''
           @ (if dim_reduc_on l then the (dim_reduction_model l) else model_name l)
           @ ''-'' @ stem (audio_dir l)"
proof -
  let ?m = "if dim_reduc_on l then the (dim_reduction_model l) else model_name l"
  have "CHR ''%'' \<notin> set (?m @ ''-'' @ stem (audio_dir l))"
    using assms by simp
  then have "strftime clock (?m @ ''-'' @ stem (audio_dir l)) = ?m @ ''-'' @ stem (audio_dir l)"
    by (rule strftime_plain)
  then show ?thesis
    by (simp add: get_timestamp_dir_def Let_def strftime_Cons_plain)
qed

text \<open>
  Claim C9 says that the name is the formatted time followed by \<^verbatim>\<open>___\<close>, the stage
  identifier, \<^verbatim>\<open>-\<close> and the corpus identifier. That holds when neither identifier
  contains a \<^verbatim>\<open>%\<close> (lemma \<open>get_timestamp_dir_plain\<close>). But the identifiers are part of
  the format handed to \<^verbatim>\<open>strftime\<close>: for the corpus directory \<^verbatim>\<open>audio_%d\<close> the name ends
  in the day of the month, and it no longer contains the corpus identifier that the
  resolver looks for.
\<close>

theorem timestamp_dir_expands_percent:
  "get_timestamp_dir ex_clock ex_ld_percent = ''2024-03-05_10-30___X-audio_05''
   \<and> strftime ex_clock ''%Y-%m-%d_%H-%M'' @ ''___'' @ model_name ex_ld_percent @ ''-''
       @ stem (audio_dir ex_ld_percent) = ''2024-03-05_10-30___X-audio_%d''
   \<and> \<not> contains (stem (audio_dir ex_ld_percent)) (get_timestamp_dir ex_clock ex_ld_percent)"
  by code_simp

section \<open>Properties of the metadata record\<close>

lemma write_audio_file_effect:
  assumes "metadata_dict l = Some md"
  shows "\<exists>md'. metadata_dict (snd (write_audio_file_to_metadata i f e a l)) = Some md'
           \<and> embed_dir (snd (write_audio_file_to_metadata i f e a l)) = embed_dir l
           \<and> (case fst (write_audio_file_to_metadata i f e a l) of
                None \<Rightarrow>
                  audio_files (md_files md') = audio_files (md_files md) @ [drop (length (audio_dir l)) f]
                  \<and> file_lengths (md_files md') = file_lengths (md_files md) @ [file_length e]
                  \<and> nr_embeds_per_file (md_files md') =
                      nr_embeds_per_file (md_files md) @ [shape_first a]
              | Some err \<Rightarrow> md_files md' = md_files md)"
  using assms
  by (auto simp: write_audio_file_to_metadata_def relative_to_def Let_def)

lemma append_files_effect:
  assumes "metadata_dict l = Some md"
    and "length (audio_files (md_files md)) = length (file_lengths (md_files md))"
    and "length (file_lengths (md_files md)) = length (nr_embeds_per_file (md_files md))"
  shows "\<exists>md1. metadata_dict (snd (append_files i recs l)) = Some md1
           \<and> embed_dir (snd (append_files i recs l)) = embed_dir l
           \<and> length (audio_files (md_files md1)) = length (file_lengths (md_files md1))
           \<and> length (file_lengths (md_files md1)) = length (nr_embeds_per_file (md_files md1))
           \<and> (fst (append_files i recs l) = None \<longrightarrow>
                 length (audio_files (md_files md1)) =
                   length (audio_files (md_files md)) + length recs
               \<and> file_lengths (md_files md1) =
                   file_lengths (md_files md) @ map (\<lambda>(f, e, a). file_length e) recs
               \<and> nr_embeds_per_file (md_files md1) =
                   nr_embeds_per_file (md_files md) @ map (\<lambda>(f, e, a). shape_first a) recs)"
  using assms
proof (induction recs arbitrary: i l md)
  case Nil
  then show ?case by simp
next
  case (Cons rec recs)
  obtain f e a where rec: "rec = (f, e, a)"
    by (cases rec) auto
  let ?w = "write_audio_file_to_metadata i f e a l"
  obtain md' where md': "metadata_dict (snd ?w) = Some md'" "embed_dir (snd ?w) = embed_dir l"
    and eff: "case fst ?w of
                None \<Rightarrow>
                  audio_files (md_files md') = audio_files (md_files md) @ [drop (length (audio_dir l)) f]
                  \<and> file_lengths (md_files md') = file_lengths (md_files md) @ [file_length e]
                  \<and> nr_embeds_per_file (md_files md') =
                      nr_embeds_per_file (md_files md) @ [shape_first a]
              | Some err \<Rightarrow> md_files md' = md_files md"
    using write_audio_file_effect [OF Cons.prems(1), of i f e a] by blast
  show ?case
  proof (cases "fst ?w")
    case None
    then have w: "?w = (None, snd ?w)"
      by (metis prod.collapse)
    from None eff have app:
      "audio_files (md_files md') = audio_files (md_files md) @ [drop (length (audio_dir l)) f]"
      "file_lengths (md_files md') = file_lengths (md_files md) @ [file_length e]"
      "nr_embeds_per_file (md_files md') = nr_embeds_per_file (md_files md) @ [shape_first a]"
      by simp_all
    have l1: "length (audio_files (md_files md')) = length (file_lengths (md_files md'))"
      and l2: "length (file_lengths (md_files md')) = length (nr_embeds_per_file (md_files md'))"
      using app Cons.prems(2,3) by simp_all
    have step: "append_files i (rec # recs) l = append_files (Suc i) recs (snd ?w)"
      unfolding rec by (subst append_files.simps, subst w) simp
    from Cons.IH [OF md'(1) l1 l2, of "Suc i"] show ?thesis
      unfolding step using md'(2) app rec by auto
  next
    case (Some err)
    then have w: "?w = (Some err, snd ?w)"
      by (metis prod.collapse)
    have step: "append_files i (rec # recs) l = (Some err, snd ?w)"
      unfolding rec by (subst append_files.simps, subst w) simp
    from Some eff have "md_files md' = md_files md" by simp
    then show ?thesis
      unfolding step using md' Cons.prems(2,3) by simp
  qed
qed

lemma map_of_replace:
  assumes "map_of fs p = Some v"
  shows "map_of (map (\<lambda>e. if fst e = p then (p, c) else e) fs) p = Some c"
  using assms by (induction fs) (auto split: if_splits)

lemma write_file_lookup:
  assumes "write_file fs p c = Inr fs'"
  shows "map_of fs' p = Some c"
  using assms
  by (auto simp: write_file_def map_of_replace map_add_def
      split: if_splits option.splits fobj.splits)

lemma write_metadata_file_effect:
  assumes "write_metadata_file fsum s = (None, s2)" and "metadata_dict (ld s) = Some md1"
  shows "\<exists>ed. embed_dir (ld s) = Some ed
      \<and> read_metadata (fsys s2) ed =
           Inr (md1\<lparr>md_nr_embeds_total := Some (sum_list (nr_embeds_per_file (md_files md1))),
                    md_total_dataset_length := Some (fsum (file_lengths (md_files md1)))\<rparr>)
      \<and> metadata_dict (ld s2) =
           Some (md1\<lparr>md_nr_embeds_total := Some (sum_list (nr_embeds_per_file (md_files md1))),
                     md_total_dataset_length := Some (fsum (file_lengths (md_files md1)))\<rparr>)"
proof -
  let ?md = "md1\<lparr>md_nr_embeds_total := Some (sum_list (nr_embeds_per_file (md_files md1))),
                 md_total_dataset_length := Some (fsum (file_lengths (md_files md1)))\<rparr>"
  from assms obtain ed fs' where ed: "embed_dir (ld s) = Some ed"
    and w: "write_file (fsys s) (joinpath ed ''metadata.yml'') (YamlFile ?md) = Inr fs'"
    and s2: "s2 = s\<lparr>ld := (ld s)\<lparr>metadata_dict := Some ?md\<rparr>, fsys := fs'\<rparr>"
    by (auto simp: write_metadata_file_def Let_def split: option.splits sum.splits)
  from write_file_lookup [OF w] have "read_metadata fs' ed = Inr ?md"
    by (simp add: read_metadata_def)
  then show ?thesis
    using ed s2 by simp
qed

text \<open>
  Claim C2. Starting from the record of \<^verbatim>\<open>_init_metadata_dict\<close>, after any number of
  per-file appends (the last of which may have raised) the three sequences
  \<^verbatim>\<open>audio_files\<close>, \<^verbatim>\<open>file_lengths (s)\<close> and \<^verbatim>\<open>nr_embeds_per_file\<close> have the same length;
  each completed append has added exactly one element to each. After the flush, the
  record stored in the metadata file has \<^verbatim>\<open>nr_embeds_total\<close> equal to the sum of
  \<^verbatim>\<open>nr_embeds_per_file\<close> and \<^verbatim>\<open>total_dataset_length (s)\<close> equal to the sum of
  \<^verbatim>\<open>file_lengths (s)\<close>, both computed from the sequences at that moment.
\<close>

theorem metadata_sequences_in_lockstep:
  assumes init: "init_metadata_dict l0 = Inr l"
    and run: "append_files 0 recs l = (r, l1)"
    and flush: "write_metadata_file fsum (s\<lparr>ld := l1\<rparr>) = (None, s2)"
  shows "\<exists>md ed. embed_dir l0 = Some ed
       \<and> read_metadata (fsys s2) ed = Inr md
       \<and> metadata_dict (ld s2) = Some md
       \<and> length (audio_files (md_files md)) = length (file_lengths (md_files md))
       \<and> length (file_lengths (md_files md)) = length (nr_embeds_per_file (md_files md))
       \<and> (r = None \<longrightarrow>
             length (audio_files (md_files md)) = length recs
           \<and> file_lengths (md_files md) = map (\<lambda>(f, e, a). file_length e) recs
           \<and> nr_embeds_per_file (md_files md) = map (\<lambda>(f, e, a). shape_first a) recs)
       \<and> md_nr_embeds_total md = Some (sum_list (nr_embeds_per_file (md_files md)))
       \<and> md_total_dataset_length md = Some (fsum (file_lengths (md_files md)))"
proof -
  from init obtain ed md0 where ed: "embed_dir l0 = Some ed" "embed_dir l = Some ed"
    and md0: "metadata_dict l = Some md0"
      "audio_files (md_files md0) = []" "file_lengths (md_files md0) = []"
      "nr_embeds_per_file (md_files md0) = []"
    by (auto simp: init_metadata_dict_def split: option.splits)
  have "length (audio_files (md_files md0)) = length (file_lengths (md_files md0))"
    and "length (file_lengths (md_files md0)) = length (nr_embeds_per_file (md_files md0))"
    using md0 by simp_all
  from append_files_effect [OF md0(1) this, of 0 recs] run md0(2-4) ed(2)
  obtain md1 where md1: "metadata_dict l1 = Some md1" "embed_dir l1 = Some ed"
      "length (audio_files (md_files md1)) = length (file_lengths (md_files md1))"
      "length (file_lengths (md_files md1)) = length (nr_embeds_per_file (md_files md1))"
      "r = None \<longrightarrow>
         length (audio_files (md_files md1)) = length recs
       \<and> file_lengths (md_files md1) = map (\<lambda>(f, e, a). file_length e) recs
       \<and> nr_embeds_per_file (md_files md1) = map (\<lambda>(f, e, a). shape_first a) recs"
    by auto
  have "metadata_dict (ld (s\<lparr>ld := l1\<rparr>)) = Some md1"
    using md1(1) by simp
  from write_metadata_file_effect [OF flush this] md1(2)
  have "read_metadata (fsys s2) ed =
           Inr (md1\<lparr>md_nr_embeds_total := Some (sum_list (nr_embeds_per_file (md_files md1))),
                    md_total_dataset_length := Some (fsum (file_lengths (md_files md1)))\<rparr>)"
    and "metadata_dict (ld s2) =
           Some (md1\<lparr>md_nr_embeds_total := Some (sum_list (nr_embeds_per_file (md_files md1))),
                     md_total_dataset_length := Some (fsum (file_lengths (md_files md1)))\<rparr>)"
    by auto
  then show ?thesis
    using ed(1) md1(3-5) by simp
qed

theorem metadata_sequences_in_lockstep_witness:
  "length (audio_files (md_files (projr (read_metadata
       (fsys (snd (write_metadata_file sum_list
          (ex_state\<lparr>ld := snd (append_files 0 ex_recs
                                  (projr (init_metadata_dict ex_fresh_ld)))\<rparr>))))
       ex_stale_empty)))) = 2
   \<and> md_nr_embeds_total (projr (read_metadata
       (fsys (snd (write_metadata_file sum_list
          (ex_state\<lparr>ld := snd (append_files 0 ex_recs
                                  (projr (init_metadata_dict ex_fresh_ld)))\<rparr>))))
       ex_stale_empty)) = Some 5
   \<and> md_total_dataset_length (projr (read_metadata
       (fsys (snd (write_metadata_file sum_list
          (ex_state\<lparr>ld := snd (append_files 0 ex_recs
                                  (projr (init_metadata_dict ex_fresh_ld)))\<rparr>))))
       ex_stale_empty)) = Some 50"
proof -
  let ?l = "projr (init_metadata_dict ex_fresh_ld)"
  let ?l1 = "snd (append_files 0 ex_recs ?l)"
  let ?s2 = "snd (write_metadata_file sum_list (ex_state\<lparr>ld := ?l1\<rparr>))"
  have init: "init_metadata_dict ex_fresh_ld = Inr ?l" by code_simp
  have r: "fst (append_files 0 ex_recs ?l) = None" by code_simp
  then have run: "append_files 0 ex_recs ?l = (None, ?l1)"
    by (metis prod.collapse)
  have "fst (write_metadata_file sum_list (ex_state\<lparr>ld := ?l1\<rparr>)) = None" by code_simp
  then have flush: "write_metadata_file sum_list (ex_state\<lparr>ld := ?l1\<rparr>) = (None, ?s2)"
    by (metis prod.collapse)
  have ed: "embed_dir ex_fresh_ld = Some ex_stale_empty" by code_simp
  have n: "length ex_recs = 2" by code_simp
  have fl: "sum_list (map (\<lambda>(f, e, a). file_length e) ex_recs) = 50" by code_simp
  have ne: "sum_list (map (\<lambda>(f, e, a). shape_first a) ex_recs) = 5" by code_simp
  from metadata_sequences_in_lockstep [OF init run flush] ed n fl ne
  show ?thesis by auto
qed

section \<open>Properties of the reduction-stage time stamps\<close>

lemma np_arange_length:
  assumes "step \<noteq> 0"
  shows "\<exists>ts. np_arange rnd stop step = Inr ts
             \<and> length ts = nat \<lceil>rnd (rnd (stop - 0) / step)\<rceil>"
  using assms by (simp add: np_arange_def Let_def)

text \<open>
  In exact arithmetic the time stamps are, file by file, \<open>0, step, \<dots>, (n - 1) * step\<close>.
\<close>

lemma t_stamps_exact:
  assumes "step \<noteq> 0" and "\<forall>sh\<in>set dims. length sh = 2"
  shows "t_stamps (\<lambda>r. r) step dims acc =
           Inr (acc @ concat (map (\<lambda>sh. map (\<lambda>i. of_nat i * step) [0..<hd sh]) dims))"
  using assms(2)
proof (induction dims arbitrary: acc)
  case Nil
  then show ?case by simp
next
  case (Cons sh dims)
  then obtain n k where sh: "sh = [n, k]"
    by (cases sh; cases "tl sh") auto
  have "np_arange (\<lambda>r. r) (of_nat n * step) step = Inr (map (\<lambda>i. of_nat i * step) [0..<n])"
    using assms(1) by (auto simp: np_arange_def)
  then show ?case
    using Cons by (simp add: sh)
qed

text \<open>
  Claim C6 says that the time stamps of a file with \<open>n\<close> frames are
  \<open>0, step, \<dots>, (n - 1) * step\<close>, so that the array has as many entries as there are
  frames. In binary64 arithmetic this fails: for segments of 15360 samples at 16 kHz the
  step is the float nearest to 0.96, the quotient of \<open>9 * step\<close> by \<open>step\<close> rounds to a
  float above 9, and \<^verbatim>\<open>np.arange\<close> yields ten time stamps for a file of nine frames.
\<close>

theorem timestamps_outnumber_frames:
  "map_sum id (length \<circ> json_timestamp)
     (save_embeddings fl64 ex_reduc_ld ex_embeds) = Inr 10
   \<and> map_option (map hd) (embedding_dimensions (md_files (the (metadata_dict ex_reduc_ld))))
       = Some [9]"
proof -
  define step where "step = fl64 (of_int 15360 / of_int 16000)"
  define stop where "stop = fl64 (of_nat 9 * step)"
  have nz: "step \<noteq> 0"
    unfolding step_def by code_simp
  have len: "nat \<lceil>fl64 (fl64 (stop - 0) / step)\<rceil> = 10"
    unfolding stop_def step_def by code_simp
  obtain md where md: "metadata_dict ex_reduc_ld = Some md"
      "md_segment_length md = Some 15360" "md_sample_rate md = Some 16000"
      "embedding_dimensions (md_files md) = Some [[9, 128]]"
    by (simp add: ex_reduc_ld_def ex_ld_def ex_md_def)
  have div: "py_truediv fl64 15360 16000 = Inr step"
    by (simp add: py_truediv_def step_def)
  obtain ts where ts: "np_arange fl64 stop step = Inr ts" "length ts = 10"
    using np_arange_length [OF nz, of fl64 stop] len by auto
  have "t_stamps fl64 step [[9, 128]] [] = Inr ts"
    using ts(1) by (simp add: stop_def)
  then have "save_embeddings_dict_with_timestamps fl64 ex_embeds step ex_reduc_ld =
      Inr \<lparr>json_x = Some (map (\<lambda>r. r ! 0) (rows ex_embeds)),
           json_y = Some (map (\<lambda>r. r ! 1) (rows ex_embeds)),
           json_timestamp = ts, json_metadata = md\<rparr>"
    using md by (simp add: save_embeddings_dict_with_timestamps_def ex_embeds_def)
  moreover have "save_embeddings fl64 ex_reduc_ld ex_embeds =
      save_embeddings_dict_with_timestamps fl64 ex_embeds step ex_reduc_ld"
    using md div by (simp add: save_embeddings_def)
  ultimately show ?thesis
    using ts(2) md by simp
qed

end
